theory Spec2Isabelle
  imports Main
begin

section \<open>The IR the lowering emits into\<close>

text \<open>
  The types of the IR library as the lowering code inspects them: an integer type with
  its bit size, a floating-point type with its kind (read as a number by \<open>typeSize\<close>),
  a pointer type, \<open>void\<close>, and every other type by name. \<open>types.Equal\<close> is structural
  equality.
\<close>

datatype ty = IntType nat | FloatType nat | PointerType ty | VoidType | NamedType string

abbreviation I1 :: ty where "I1 \<equiv> IntType 1"
abbreviation I8 :: ty where "I8 \<equiv> IntType 8"
abbreviation I32 :: ty where "I32 \<equiv> IntType 32"
abbreviation I64 :: ty where "I64 \<equiv> IntType 64"

text \<open>
  \<open>types.Double\<close>. The number of a floating-point kind is the library's enumeration
  value, which the sources here do not show; the kind of \<open>double\<close> is written 64.
\<close>

abbreviation Double :: ty where "Double \<equiv> FloatType 64"

fun IsInt :: "ty \<Rightarrow> bool" where
  "IsInt (IntType n) = True"
| "IsInt t = False"

fun IsFloat :: "ty \<Rightarrow> bool" where
  "IsFloat (FloatType k) = True"
| "IsFloat t = False"

fun IsPointer :: "ty \<Rightarrow> bool" where
  "IsPointer (PointerType t) = True"
| "IsPointer t = False"

text \<open>\<open>IsNumber\<close> (src/pkg/ast/BooleanNode.go, the \<open>types\<close> package appended to it).\<close>

definition IsNumber :: "ty \<Rightarrow> bool" where
  "IsNumber t = (IsInt t \<or> IsFloat t)"

datatype ipred = IntEQ | IntNE

text \<open>
  A value is \<open>nil\<close>, an integer or floating-point constant (carrying the size or kind of
  its type, which \<open>createTypeCast\<close> overwrites, and its payload), any other typed value
  (a parameter, a global, a call result: its type and an identity), or the result of one
  of the instructions the modelled code creates. An instruction is the value it computes,
  as in the IR library.
\<close>

datatype val =
    NilVal
  | ConstInt nat int
  | ConstFloat nat int
  | Opaque ty nat
  | InstBitCast val ty
  | InstFPToSI val ty
  | InstSIToFP val ty
  | InstSExt val ty
  | InstTrunc val ty
  | InstFPExt val ty
  | InstFPTrunc val ty
  | InstPtrToInt val ty
  | InstIntToPtr val ty
  | InstZExt val ty
  | InstICmp ipred val val
  | InstXor val val
  | InstSub val val
  | InstFSub val val
  | InstLoad val

abbreviation constant_False :: val where "constant_False \<equiv> ConstInt 1 0"
abbreviation constant_True :: val where "constant_True \<equiv> ConstInt 1 1"

text \<open>
  \<open>v.Type()\<close>. On \<open>nil\<close> the call panics; the functions below test for \<open>NilVal\<close>
  before they ask for a type, so the equation for \<open>NilVal\<close> is never used.
\<close>

fun Type_of :: "val \<Rightarrow> ty" where
  "Type_of NilVal = VoidType"
| "Type_of (ConstInt n x) = IntType n"
| "Type_of (ConstFloat k x) = FloatType k"
| "Type_of (Opaque t i) = t"
| "Type_of (InstBitCast v t) = t"
| "Type_of (InstFPToSI v t) = t"
| "Type_of (InstSIToFP v t) = t"
| "Type_of (InstSExt v t) = t"
| "Type_of (InstTrunc v t) = t"
| "Type_of (InstFPExt v t) = t"
| "Type_of (InstFPTrunc v t) = t"
| "Type_of (InstPtrToInt v t) = t"
| "Type_of (InstIntToPtr v t) = t"
| "Type_of (InstZExt v t) = t"
| "Type_of (InstICmp p x y) = I1"
| "Type_of (InstXor x y) = Type_of x"
| "Type_of (InstSub x y) = Type_of x"
| "Type_of (InstFSub x y) = Type_of x"
| "Type_of (InstLoad p) = (case Type_of p of PointerType t \<Rightarrow> t | t \<Rightarrow> t)"

fun isConstInt :: "val \<Rightarrow> bool" where
  "isConstInt (ConstInt n x) = True"
| "isConstInt v = False"

fun isConstFloat :: "val \<Rightarrow> bool" where
  "isConstFloat (ConstFloat k x) = True"
| "isConstFloat v = False"

text \<open>\<open>c.Typ = to\<close>: the constant keeps its payload and takes the target type.\<close>

fun retype :: "val \<Rightarrow> ty \<Rightarrow> val" where
  "retype (ConstInt n x) (IntType m) = ConstInt m x"
| "retype (ConstFloat k x) (FloatType j) = ConstFloat j x"
| "retype v t = v"

text \<open>
  A basic block: its name, its instructions in emission order, and its terminator slot,
  empty (\<open>None\<close>) or occupied. Blocks are shared by pointer, so they live in a heap
  indexed by block references; a pointer that may be \<open>nil\<close> is a \<open>blockref option\<close>.
\<close>

type_synonym blockref = nat

datatype terminator =
    TermBr "blockref option"
  | TermCondBr val "blockref option" "blockref option"
  | TermRet val

record BasicBlock =
  Name :: string
  Insts :: "val list"
  Term :: "terminator option"

type_synonym blockheap = "blockref \<Rightarrow> BasicBlock"

datatype error =
    ErrNonAddressable
  | ErrNilOperand
  | ErrNegate
  | ErrNot ty
  | ErrDereference
  | ErrTypecast ty ty
  | ErrOperand string
  | NilPanic

text \<open>
  The instruction constructors of a block (\<open>blk.NewTrunc(in, to)\<close> and the others)
  append the new instruction to the block and return it.
\<close>

definition emit :: "BasicBlock \<Rightarrow> val \<Rightarrow> (error + val) \<times> BasicBlock" where
  "emit blk i = (Inr i, blk\<lparr>Insts := Insts blk @ [i]\<rparr>)"

text \<open>\<open>blk.NewBr(to)\<close> creates the branch and stores it in the terminator slot.\<close>

definition NewBr :: "BasicBlock \<Rightarrow> blockref option \<Rightarrow> BasicBlock" where
  "NewBr blk to = blk\<lparr>Term := Some (TermBr to)\<rparr>"

section \<open>Lowering helpers (src/unnamed/part\_000)\<close>

text \<open>
  \<open>branchIfNoTerminator\<close> (lines 497-501). Reading \<open>blk.Term\<close> through a \<open>nil\<close>
  block panics.
\<close>

definition branchIfNoTerminator ::
  "blockheap \<Rightarrow> blockref option \<Rightarrow> blockref option \<Rightarrow> error + blockheap" where
  "branchIfNoTerminator h blk to =
     (case blk of
        None \<Rightarrow> Inl NilPanic
      | Some b \<Rightarrow>
          if Term (h b) = None then Inr (h(b := NewBr (h b) to)) else Inr h)"

text \<open>\<open>typeSize\<close> (lines 295-304 and 745-754, the same text).\<close>

fun typeSize :: "ty \<Rightarrow> int" where
  "typeSize (IntType n) = int n"
| "typeSize (FloatType k) = int k"
| "typeSize t = - 1"

text \<open>\<open>typesAreLooselyEqual\<close> (lines 306-308).\<close>

definition typesAreLooselyEqual :: "ty \<Rightarrow> ty \<Rightarrow> bool" where
  "typesAreLooselyEqual a b = (IsNumber a \<and> IsNumber b)"

text \<open>
  \<open>createTypeCast\<close>, lines 311-388: the variant of the file that \<open>Program.go\<close> is
  compiled with. The block is \<open>prog.Compiler.CurrentBlock()\<close>; the result is the
  returned value or error, and the block after the call.
\<close>

definition createTypeCast :: "BasicBlock \<Rightarrow> val \<Rightarrow> ty \<Rightarrow> (error + val) \<times> BasicBlock" where
  "createTypeCast blk input to =
     (if input = NilVal then (Inl NilPanic, blk)
      else
        let inType = Type_of input;
            fromInt = IsInt inType;
            fromFloat = IsFloat inType;
            toInt = IsInt to;
            toFloat = IsFloat to;
            inSize = typeSize inType;
            outSize = typeSize to
        in
          if inType = to then (Inr input, blk)
          else if isConstInt input \<and> IsInt to then (Inr (retype input to), blk)
          else if isConstFloat input \<and> IsFloat to then (Inr (retype input to), blk)
          else if to = VoidType then (Inr NilVal, blk)
          else if IsPointer inType \<and> IsPointer to then emit blk (InstBitCast input to)
          else if fromFloat \<and> toInt then emit blk (InstFPToSI input to)
          else if fromInt \<and> toFloat then emit blk (InstSIToFP input to)
          else if fromInt \<and> toInt then
            (if inSize < outSize then emit blk (InstSExt input to)
             else if inSize = outSize then (Inr input, blk)
             else emit blk (InstTrunc input to))
          else if fromFloat \<and> toFloat then
            (if inSize < outSize then emit blk (InstFPExt input to)
             else if inSize = outSize then (Inr input, blk)
             else emit blk (InstFPTrunc input to))
          else if inType = to then (Inr input, blk)
          else if IsPointer inType \<and> IsInt to then emit blk (InstPtrToInt input to)
          else if IsInt inType \<and> IsPointer to then emit blk (InstIntToPtr input to)
          else (Inl (ErrTypecast inType to), blk))"

text \<open>
  \<open>createTypeCast\<close>, lines 761-833: the other variant in the same source file. It has
  no test for equal types at its head; its only such test comes after the constant,
  \<open>void\<close>, pointer and numeric branches.
\<close>

definition createTypeCast_earlier ::
  "BasicBlock \<Rightarrow> val \<Rightarrow> ty \<Rightarrow> (error + val) \<times> BasicBlock" where
  "createTypeCast_earlier blk input to =
     (if input = NilVal then (Inl NilPanic, blk)
      else
        let inType = Type_of input;
            fromInt = IsInt inType;
            fromFloat = IsFloat inType;
            toInt = IsInt to;
            toFloat = IsFloat to;
            inSize = typeSize inType;
            outSize = typeSize to
        in
          if isConstInt input \<and> IsInt to then (Inr (retype input to), blk)
          else if isConstFloat input \<and> IsFloat to then (Inr (retype input to), blk)
          else if to = VoidType then (Inr NilVal, blk)
          else if IsPointer inType \<and> IsPointer to then emit blk (InstBitCast input to)
          else if fromFloat \<and> toInt then emit blk (InstFPToSI input to)
          else if fromInt \<and> toFloat then emit blk (InstSIToFP input to)
          else if fromInt \<and> toInt then
            (if inSize < outSize then emit blk (InstSExt input to)
             else if inSize = outSize then (Inr input, blk)
             else emit blk (InstTrunc input to))
          else if fromFloat \<and> toFloat then
            (if inSize < outSize then emit blk (InstFPExt input to)
             else if inSize = outSize then (Inr input, blk)
             else emit blk (InstFPTrunc input to))
          else if inType = to then (Inr input, blk)
          else if IsPointer inType \<and> IsInt to then emit blk (InstPtrToInt input to)
          else if IsInt inType \<and> IsPointer to then emit blk (InstIntToPtr input to)
          else (Inl (ErrTypecast inType to), blk))"

text \<open>
  \<open>UnaryNode.Codegen\<close>, lines 174-238. The operand is another node: what the lowering
  uses of it is whether it implements \<open>Reference\<close> (then its \<open>Alloca\<close>), and its own
  \<open>Codegen\<close>, which emits into the current block and returns a value or an error.
  \<open>SyntaxError()\<close> only prints.
\<close>

record UnaryNode =
  Operator :: string
  Operand_Alloca :: "val option"
  Operand_Codegen :: "BasicBlock \<Rightarrow> (error + val) \<times> BasicBlock"

definition UnaryNode_Codegen :: "UnaryNode \<Rightarrow> BasicBlock \<Rightarrow> (error + val) \<times> BasicBlock" where
  "UnaryNode_Codegen n blk =
     (if Operator n = ''&'' then
        (case Operand_Alloca n of
           None \<Rightarrow> (Inl ErrNonAddressable, blk)
         | Some a \<Rightarrow> (Inr a, blk))
      else
        case Operand_Codegen n blk of
          (Inl err, blk1) \<Rightarrow> (Inl err, blk1)
        | (Inr operandValue, blk1) \<Rightarrow>
            if operandValue = NilVal then (Inl ErrNilOperand, blk1)
            else if Operator n = ''-'' then
              (if IsFloat (Type_of operandValue)
               then emit blk1 (InstFSub (ConstFloat 64 0) operandValue)
               else if IsInt (Type_of operandValue)
               then emit blk1 (InstSub (ConstInt 64 0) operandValue)
               else (Inl ErrNegate, blk1))
            else if Operator n = ''!'' then
              (if \<not> IsInt (Type_of operandValue) then (Inl (ErrNot (Type_of operandValue)), blk1)
               else
                 let (r, blk2) = createTypeCast blk1 operandValue I1;
                     opVal = (case r of Inl e \<Rightarrow> NilVal | Inr v \<Rightarrow> v);
                     eq = InstICmp IntNE opVal constant_False;
                     inv = InstXor eq constant_True;
                     ext = InstZExt inv I32
                 in (Inr ext, blk2\<lparr>Insts := Insts blk2 @ [eq, inv, ext]\<rparr>))
            else if Operator n = ''*'' then
              (if IsPointer (Type_of operandValue) then emit blk1 (InstLoad operandValue)
               else (Inl ErrDereference, blk1))
            else (Inr operandValue, blk1))"

section \<open>File paths (the \<open>path/filepath\<close> functions the resolver calls)\<close>

text \<open>
  Paths are strings, as in the source. \<open>filepath.Clean\<close>, \<open>filepath.Join\<close> and
  \<open>filepath.Dir\<close> belong to the Go standard library; they are written out here after
  its Unix implementation, on the elements between separators: empty elements and
  \<open>.\<close> are dropped, \<open>..\<close> removes the element before it (at the root it is
  dropped, at the start of a relative path it is kept), and the empty result is \<open>.\<close>.
\<close>

fun splitSep :: "string \<Rightarrow> string list" where
  "splitSep [] = [[]]"
| "splitSep (c # cs) =
     (if c = CHR ''/'' then [] # splitSep cs
      else (case splitSep cs of [] \<Rightarrow> [[c]] | w # ws \<Rightarrow> (c # w) # ws))"

fun joinSep :: "string list \<Rightarrow> string" where
  "joinSep [] = []"
| "joinSep [e] = e"
| "joinSep (e # es) = e @ ''/'' @ joinSep es"

fun cleanElems :: "bool \<Rightarrow> string list \<Rightarrow> string list \<Rightarrow> string list" where
  "cleanElems rooted out [] = rev out"
| "cleanElems rooted out (e # es) =
     (if e = [] \<or> e = ''.'' then cleanElems rooted out es
      else if e = ''..'' then
        (case out of
           [] \<Rightarrow> if rooted then cleanElems rooted [] es else cleanElems rooted [''..''] es
         | x # xs \<Rightarrow> if x = ''..'' then cleanElems rooted (''..'' # out) es
                     else cleanElems rooted xs es)
      else cleanElems rooted (e # out) es)"

definition Clean :: "string \<Rightarrow> string" where
  "Clean path =
     (if path = [] then ''.''
      else
        let rooted = (hd path = CHR ''/'');
            body = joinSep (cleanElems rooted [] (splitSep path))
        in if rooted then CHR ''/'' # body
           else if body = [] then ''.'' else body)"

text \<open>\<open>filepath.Join(a, b)\<close>: empty leading elements are skipped, the rest is cleaned.\<close>

definition Join :: "string \<Rightarrow> string \<Rightarrow> string" where
  "Join a b =
     (if a \<noteq> [] then Clean (a @ ''/'' @ b)
      else if b \<noteq> [] then Clean b
      else [])"

text \<open>\<open>filepath.Dir(path)\<close>: the path up to its last separator, cleaned.\<close>

definition Dir :: "string \<Rightarrow> string" where
  "Dir path = Clean (rev (dropWhile (\<lambda>c. c \<noteq> CHR ''/'') (rev path)))"

text \<open>\<open>strings.HasPrefix\<close>, \<open>strings.HasSuffix\<close>.\<close>

definition HasPrefix :: "string \<Rightarrow> string \<Rightarrow> bool" where
  "HasPrefix s pre = (take (length pre) s = pre)"

definition HasSuffix :: "string \<Rightarrow> string \<Rightarrow> bool" where
  "HasSuffix s suf = (length suf \<le> length s \<and> drop (length s - length suf) s = suf)"

text \<open>\<open>strings.Replace(filename, "std:", "", -1)\<close>: every occurrence is removed, left to right.\<close>

fun removeStd :: "string \<Rightarrow> string" where
  "removeStd (a # b # c # d # rest) =
     (if [a, b, c, d] = ''std:'' then removeStd rest else a # removeStd (b # c # d # rest))"
| "removeStd s = s"

text \<open>
  That \<open>Dir\<close> of a path other than \<open>/\<close> and \<open>.\<close> is \<open>/\<close>, \<open>.\<close> or a shorter
  path is what makes the loop of \<open>SearchPaths\<close> end.
\<close>

definition elemsSize :: "string list \<Rightarrow> nat" where
  "elemsSize es = sum_list (map (\<lambda>e. Suc (length e)) es)"

definition realSize :: "string list \<Rightarrow> nat" where
  "realSize es = sum_list (map (\<lambda>e. Suc (length e)) (filter (\<lambda>e. e \<noteq> []) es))"

lemma splitSep_ne: "splitSep s \<noteq> []"
  by (induction s) (auto split: list.splits)

lemma length_splitSep: "Suc (length s) = elemsSize (splitSep s)"
  by (induction s) (auto simp: elemsSize_def splitSep_ne split: list.splits)

lemma length_joinSep: "es \<noteq> [] \<Longrightarrow> Suc (length (joinSep es)) = elemsSize es"
  by (induction es rule: joinSep.induct) (auto simp: elemsSize_def)

lemma cleanElems_size:
  "elemsSize (cleanElems rooted out es) \<le> elemsSize out + realSize es"
proof (induction rooted out es rule: cleanElems.induct)
  case (1 rooted out)
  then show ?case by (simp add: elemsSize_def rev_map [symmetric])
next
  case (2 rooted out e es)
  then show ?case
    by (auto simp: elemsSize_def realSize_def split: list.splits if_splits)
qed

lemma realSize_empties:
  "realSize es + length (filter (\<lambda>e. e = []) es) = elemsSize es"
  by (induction es) (auto simp: realSize_def elemsSize_def)

lemma splitSep_last_slash:
  "s \<noteq> [] \<Longrightarrow> last s = CHR ''/'' \<Longrightarrow> \<exists>ys. splitSep s = ys @ [[]] \<and> ys \<noteq> []"
proof (induction s)
  case Nil
  then show ?case by simp
next
  case (Cons c cs)
  show ?case
  proof (cases "cs = []")
    case True
    with Cons.prems show ?thesis by simp
  next
    case False
    with Cons obtain ys where ys: "splitSep cs = ys @ [[]]" "ys \<noteq> []" by auto
    show ?thesis
    proof (cases "c = CHR ''/''")
      case True
      with ys show ?thesis by simp
    next
      case False
      with ys show ?thesis by (cases ys) auto
    qed
  qed
qed

lemma Clean_shorter:
  assumes "s \<noteq> []" and "last s = CHR ''/''" and "Clean s \<noteq> ''/''" and "Clean s \<noteq> ''.''"
  shows "length (Clean s) < length s"
proof -
  obtain ys where ys: "splitSep s = ys @ [[]]"
    using splitSep_last_slash assms(1,2) by blast
  let ?rooted = "hd s = CHR ''/''"
  let ?res = "cleanElems ?rooted [] (splitSep s)"
  have sz: "elemsSize ?res \<le> realSize (splitSep s)"
    using cleanElems_size [of ?rooted "[]" "splitSep s"] by (simp add: elemsSize_def)
  have len: "Suc (length s) = elemsSize (splitSep s)"
    by (rule length_splitSep)
  show ?thesis
  proof (cases ?rooted)
    case False
    with assms have ne: "?res \<noteq> []"
      by (auto simp: Clean_def Let_def)
    have "realSize (splitSep s) + 1 \<le> elemsSize (splitSep s)"
      using realSize_empties [of "splitSep s"] ys by simp
    with sz len length_joinSep [OF ne] have "length (joinSep ?res) < length s"
      by simp
    with False assms(1,4) show ?thesis
      by (auto simp: Clean_def Let_def)
  next
    case True
    with assms have ne: "?res \<noteq> []"
      by (auto simp: Clean_def Let_def)
    from True assms(1) obtain rest where rest: "s = CHR ''/'' # rest"
      by (cases s) auto
    have "2 \<le> length (filter (\<lambda>e. e = []) (splitSep s))"
    proof (cases "rest = []")
      case True
      with rest show ?thesis by simp
    next
      case False
      with rest assms(2) have "last rest = CHR ''/''" by simp
      with False obtain zs where "splitSep rest = zs @ [[]]"
        using splitSep_last_slash by blast
      with rest show ?thesis by simp
    qed
    then have "realSize (splitSep s) + 2 \<le> elemsSize (splitSep s)"
      using realSize_empties [of "splitSep s"] by simp
    with sz len length_joinSep [OF ne] have "Suc (length (joinSep ?res)) < length s"
      by simp
    with True assms(1) show ?thesis
      by (simp add: Clean_def Let_def)
  qed
qed

lemma Dir_shorter:
  "Dir base = ''/'' \<or> Dir base = ''.'' \<or> length (Dir base) < length base"
proof -
  let ?p = "rev (dropWhile (\<lambda>c. c \<noteq> CHR ''/'') (rev base))"
  have le: "length ?p \<le> length base"
    using length_dropWhile_le [of "\<lambda>c. c \<noteq> CHR ''/''" "rev base"] by simp
  show ?thesis
  proof (cases "?p = []")
    case True
    then show ?thesis by (simp add: Dir_def Clean_def)
  next
    case False
    then have "last ?p = CHR ''/''"
      using hd_dropWhile [of "\<lambda>c. c \<noteq> CHR ''/''" "rev base"] by (simp add: last_rev)
    with False Clean_shorter [of ?p]
    have "Clean ?p = ''/'' \<or> Clean ?p = ''.'' \<or> length (Clean ?p) < length ?p"
      by blast
    with le show ?thesis
      unfolding Dir_def by linarith
  qed
qed

section \<open>The world outside the program\<close>

text \<open>
  What the loader asks of its surroundings, none of it under src/: the file system
  (\<open>os.Open\<close> with \<open>Stat\<close> or \<open>Readdir\<close>, \<open>ioutil.ReadFile\<close>, the working directory
  behind \<open>filepath.Abs\<close>), \<open>util.StdLibFile\<close>, the lexer and parser (from the path and
  text of a file to its nodes, see \<open>Node\<close> below), whether \<open>lexer.NewSourcefile\<close>
  reports an error, and whether \<open>log.Error\<close> ends the process as \<open>log.Fatal\<close> does or
  returns after printing.
\<close>

record 'node world =
  isDirectory :: "string \<Rightarrow> bool"
  readdir :: "string \<Rightarrow> string list option"
  readFile :: "string \<Rightarrow> string option"
  getwd :: "string option"
  StdLibFile :: "string \<Rightarrow> string"
  NewSourcefile_fails :: "string \<Rightarrow> bool"
  Parse_Lex :: "string \<Rightarrow> string \<Rightarrow> 'node list"
  log_Error_exits :: bool

section \<open>Path Resolver (src/pkg/ast/Program.go)\<close>

text \<open>\<open>PathIsDir\<close> (lines 620-631): false whenever opening or \<open>Stat\<close> fails.\<close>

definition PathIsDir :: "('node, 'x) world_scheme \<Rightarrow> string \<Rightarrow> bool" where
  "PathIsDir w pth = isDirectory w pth"

text \<open>\<open>ReduceToDir\<close> (lines 236-241).\<close>

definition ReduceToDir :: "('node, 'x) world_scheme \<Rightarrow> string \<Rightarrow> string" where
  "ReduceToDir w path = (if PathIsDir w path then path else Dir path)"

definition packagedir :: string where
  "packagedir = ''geodepkgs''"

text \<open>\<open>SearchPaths\<close> (lines 581-594); \<open>SearchPaths_loop\<close> is its \<open>for\<close> loop.\<close>

function SearchPaths_loop :: "string \<Rightarrow> string list \<Rightarrow> string list" where
  "SearchPaths_loop base sp =
     (if base \<noteq> ''/'' \<and> base \<noteq> ''.''
      then SearchPaths_loop (Dir base) (sp @ [Join base packagedir])
      else sp)"
  by pat_completeness auto
termination
proof (relation "measure (\<lambda>(base, sp). if base = ''/'' \<or> base = ''.'' then 0 else Suc (length base))")
  show "wf (measure (\<lambda>(base, sp). if base = ''/'' \<or> base = ''.'' then 0 else Suc (length base)))"
    by simp
next
  fix base :: string and sp :: "string list"
  assume "base \<noteq> ''/'' \<and> base \<noteq> ''.''"
  then show "((Dir base, sp @ [Join base packagedir]), (base, sp))
      \<in> measure (\<lambda>(base, sp). if base = ''/'' \<or> base = ''.'' then 0 else Suc (length base))"
    using Dir_shorter [of base] by auto
qed

declare SearchPaths_loop.simps [simp del]

definition SearchPaths :: "string \<Rightarrow> string list" where
  "SearchPaths base = SearchPaths_loop base [base, ''/usr/local/lib/geodelib'']"

text \<open>\<open>ResolveDepPath\<close> (lines 597-617); \<open>ResolveDepPath_loop\<close> is its \<open>for\<close> loop.\<close>

fun ResolveDepPath_loop :: "('node, 'x) world_scheme \<Rightarrow> string \<Rightarrow> string list \<Rightarrow> string option" where
  "ResolveDepPath_loop w filename [] = None"
| "ResolveDepPath_loop w filename (sp # sps) =
     (let absPath = Join sp filename
      in if PathIsDir w absPath then Some absPath else ResolveDepPath_loop w filename sps)"

definition ResolveDepPath :: "('node, 'x) world_scheme \<Rightarrow> string \<Rightarrow> string \<Rightarrow> string" where
  "ResolveDepPath w base filename =
     (if HasPrefix filename ''std:'' then
        let filename1 = removeStd filename;
            base1 = StdLibFile w filename1
        in Join base1 filename1
      else
        let searchPaths = Join base filename # SearchPaths base
        in case ResolveDepPath_loop w filename searchPaths of
             Some absPath \<Rightarrow> absPath
           | None \<Rightarrow> Join base filename)"

section \<open>The resolver as the specification words it\<close>

text \<open>
  The directories from \<open>base\<close> toward the root, \<open>base\<close> first, stopping before \<open>/\<close>
  and \<open>.\<close>.
\<close>

function walkUp :: "string \<Rightarrow> string list" where
  "walkUp base = (if base \<noteq> ''/'' \<and> base \<noteq> ''.'' then base # walkUp (Dir base) else [])"
  by pat_completeness auto
termination
proof (relation "measure (\<lambda>base. if base = ''/'' \<or> base = ''.'' then 0 else Suc (length base))")
  show "wf (measure (\<lambda>base. if base = ''/'' \<or> base = ''.'' then 0 else Suc (length base)))"
    by simp
next
  fix base :: string
  assume "base \<noteq> ''/'' \<and> base \<noteq> ''.''"
  then show "(Dir base, base)
      \<in> measure (\<lambda>base. if base = ''/'' \<or> base = ''.'' then 0 else Suc (length base))"
    using Dir_shorter [of base] by auto
qed

declare walkUp.simps [simp del]

text \<open>
  The candidate list of the specification, and the resolver that returns the first
  candidate that is itself a directory.
\<close>

definition claimedCandidates :: "string \<Rightarrow> string \<Rightarrow> string list" where
  "claimedCandidates base specifier =
     [Join base specifier, base, ''/usr/local/lib/geodelib'']
       @ map (\<lambda>d. Join d ''geodepkgs'') (walkUp base)"

definition ResolveDepPath_claimed :: "('node, 'x) world_scheme \<Rightarrow> string \<Rightarrow> string \<Rightarrow> string" where
  "ResolveDepPath_claimed w base specifier =
     (case find (isDirectory w) (claimedCandidates base specifier) of
        Some c \<Rightarrow> c
      | None \<Rightarrow> Join base specifier)"

section \<open>The Program context (src/pkg/ast/Program.go)\<close>

text \<open>
  Packages, function nodes and scopes are shared by pointer and mutated in place, so each
  kind lives in a heap of its own inside the Program, indexed by references that are
  handed out in allocation order; a pointer that may be \<open>nil\<close> is an \<open>option\<close>.
\<close>

type_synonym pkgref = nat
type_synonym noderef = nat
type_synonym scoperef = nat
type_synonym irfun = string

text \<open>
  The declared type of a parameter (\<open>node.Args[i].Type\<close>), of which the code reads the
  name and the \<open>Unknown\<close> mark. An argument is kept as this type.
\<close>

record TypeNode =
  TypeNode_Name :: string
  Unknown :: bool

text \<open>
  A function node. \<open>Name_String\<close> is \<open>fn.Name.String()\<close> and \<open>Name_Value\<close> is
  \<open>node.Name.Value\<close>. A variant may be stored as a \<open>nil\<close> function; a \<open>nil\<close>
  \<open>Variants\<close> map reads as the empty map and is replaced by one before the first write.
\<close>

record FunctionNode =
  Name_String :: string
  Name_Value :: string
  Args :: "TypeNode list"
  Variadic :: bool
  Nomangle :: bool
  External :: bool
  FunctionNode_Package :: "pkgref option"
  Variants :: "string \<rightharpoonup> irfun option"
  NameCache :: string
  Compiled :: bool

record ClassNode =
  ClassNode_Name :: string
  ClassNode_Package :: "pkgref option"

text \<open>
  The nodes the parser hands over, by kind: a namespace declaration with its name, a
  dependency with its paths and its C-linkage flag, a function, a class, a global
  variable declaration, and any other node.
\<close>

datatype Node =
    NamespaceNode string
  | DependencyNode "string list" bool
  | FunctionNodeOf FunctionNode
  | ClassNodeOf ClassNode
  | GlobalVariableDeclNode nat
  | OtherNode nat

text \<open>A source file context: the path it was created for and the text loaded into it.\<close>

type_synonym Sourcefile = "string \<times> string"

record Package =
  Package_Name :: string
  Files :: "string \<rightharpoonup> Sourcefile"
  Nodes :: "Node list"
  DependencyPaths :: "string list"

record Scope =
  Parent :: "scoperef option"
  PackageName :: string
  Index :: nat
  Types :: "string \<rightharpoonup> ty option"
  DebugInfo :: "nat option"

text \<open>
  The compiler cursor is the stack of blocks being emitted into. A named-metadata entry
  \<open>scope_<index>\<close> of the module is kept as its index.
\<close>

type_synonym Compiler = "blockref list"

record Program =
  Scope :: scoperef
  ScopeHeap :: "scoperef \<Rightarrow> Scope"
  NextScope :: nat
  Compiler :: Compiler
  NamedMetadata :: "nat list"
  ParsedFiles :: "string list"
  Packages :: "string \<rightharpoonup> pkgref"
  PkgHeap :: "pkgref \<Rightarrow> Package"
  NextPkg :: nat
  Package :: "pkgref option"
  CLinkages :: "string list"
  Functions :: "string \<rightharpoonup> noderef"
  NodeHeap :: "noderef \<Rightarrow> FunctionNode"
  NextNode :: nat
  Classes :: "string \<rightharpoonup> ClassNode"

section \<open>File/Package Loader (src/pkg/ast/Program.go)\<close>

text \<open>
  How a run of the loader can end without a Program: one constructor for each
  \<open>log.Fatal\<close> of the source, one for \<open>log.Error\<close> in case it ends the process, and
  \<open>OutOfFuel\<close> for a dependency chain deeper than the bound given to \<open>ParsePath\<close>.
\<close>

datatype abort =
    FatalEntryLocation
  | FatalParseDir
  | FatalSourcefile string
  | FatalNamespace string
  | FatalReadFile string
  | ErrorInvalidNamespace string
  | OutOfFuel

text \<open>\<open>CanParse\<close> (lines 123-130).\<close>

definition CanParse :: "Program \<Rightarrow> string \<Rightarrow> bool" where
  "CanParse p file = (file \<notin> set (ParsedFiles p))"

text \<open>\<open>ParseDir\<close> (lines 133-159); \<open>None\<close> is its error return.\<close>

fun ParseDir_loop :: "Program \<Rightarrow> string \<Rightarrow> string list \<Rightarrow> string list" where
  "ParseDir_loop p path [] = []"
| "ParseDir_loop p path (name # list) =
     (if HasSuffix name ''.g'' then
        (let filename = Join path name
         in if CanParse p filename then filename # ParseDir_loop p path list
            else ParseDir_loop p path list)
      else ParseDir_loop p path list)"

definition ParseDir :: "(Node, 'x) world_scheme \<Rightarrow> Program \<Rightarrow> string \<Rightarrow> string list option" where
  "ParseDir w p path =
     (case readdir w path of
        None \<Rightarrow> None
      | Some list \<Rightarrow> Some (ParseDir_loop p path list))"

text \<open>
  \<open>filepath.Abs\<close>: an absolute path is cleaned, any other is joined to the working
  directory; \<open>None\<close> when the working directory cannot be read.
\<close>

definition Abs :: "(Node, 'x) world_scheme \<Rightarrow> string \<Rightarrow> string option" where
  "Abs w path =
     (if HasPrefix path ''/'' then Some (Clean path)
      else case getwd w of None \<Rightarrow> None | Some wd \<Rightarrow> Some (Join wd path))"

text \<open>\<open>NamespaceFromNodes\<close> (lines 634-643); \<open>None\<close> is its error return.\<close>

fun NamespaceFromNodes :: "Node list \<Rightarrow> string option" where
  "NamespaceFromNodes [] = None"
| "NamespaceFromNodes (NamespaceNode name # nodes) = Some name"
| "NamespaceFromNodes (n # nodes) = NamespaceFromNodes nodes"

text \<open>
  \<open>r.MatchString(name)\<close> for the pattern \<open>[a-z_]+\<close> of line 185. The pattern has no
  anchors, so it matches when some substring of the name does: when the name holds at
  least one lower-case letter or underscore.
\<close>

definition lowerOrUnderscore :: "char \<Rightarrow> bool" where
  "lowerOrUnderscore c = (c = CHR ''_'' \<or> (97 \<le> (of_char c :: nat) \<and> (of_char c :: nat) \<le> 122))"

definition MatchString :: "string \<Rightarrow> bool" where
  "MatchString name = list_ex lowerOrUnderscore name"

text \<open>
  What the message of line 188 asks of a namespace name: lower-case letters and
  underscores only, at least one.
\<close>

definition wellFormedNamespace :: "string \<Rightarrow> bool" where
  "wellFormedNamespace name = (name \<noteq> [] \<and> list_all lowerOrUnderscore name)"

text \<open>
  \<open>NewPackage(name, p)\<close> is not under src/: it is a parameter of the loader, added
  to the world. It receives the namespace name and the Program and returns a pointer to a
  Package, whose \<open>Files\<close> and \<open>Nodes\<close> \<open>ParseText\<close> then writes.
\<close>

record loaderWorld = "Node world" +
  NewPackage :: "string \<Rightarrow> Program \<Rightarrow> pkgref \<times> Program"

text \<open>
  Modelled from the spec: what \<open>NewPackage\<close> does is in no source file here. The
  specification's Package has a name, the files that declare it, their node lists and its
  dependency directories; \<open>allocPackage\<close> is the constructor its name and its use
  suggest, returning a new Package object with the given name and nothing else in it.
\<close>

definition allocPackage :: "string \<Rightarrow> Program \<Rightarrow> pkgref \<times> Program" where
  "allocPackage name p =
     (NextPkg p,
      p\<lparr>PkgHeap := (PkgHeap p)(NextPkg p :=
           \<lparr>Package_Name = name, Files = Map.empty, Nodes = [], DependencyPaths = []\<rparr>),
        NextPkg := Suc (NextPkg p)\<rparr>)"

text \<open>
  \<open>ParseDep\<close> (lines 227-233). The loader is recursive through \<open>ParsePath\<close>; the
  functions between two calls of \<open>ParsePath\<close> take it as the argument \<open>rec\<close>.
\<close>

definition ParseDep ::
  "(string \<Rightarrow> Program \<Rightarrow> abort + Program) \<Rightarrow> (Node, 'x) world_scheme
    \<Rightarrow> string \<Rightarrow> string \<Rightarrow> Program \<Rightarrow> abort + Program" where
  "ParseDep rec w base path p =
     (let depPath = ResolveDepPath w base path
      in if CanParse p depPath then rec depPath p else Inr p)"

text \<open>
  \<open>ParseText\<close> (lines 163-214). \<open>ParseText_paths\<close> is the loop over the paths of one
  dependency node (lines 204-211), \<open>ParseText_deps\<close> the loop over the dependency
  nodes (lines 201-213).
\<close>

fun ParseText_paths ::
  "(string \<Rightarrow> Program \<Rightarrow> abort + Program) \<Rightarrow> (Node, 'x) world_scheme
    \<Rightarrow> string \<Rightarrow> pkgref \<Rightarrow> bool \<Rightarrow> string list \<Rightarrow> Program \<Rightarrow> abort + Program" where
  "ParseText_paths rec w base newPkg clinkage [] p = Inr p"
| "ParseText_paths rec w base newPkg clinkage (depPath # paths) p =
     (if clinkage then
        ParseText_paths rec w base newPkg clinkage paths
          (p\<lparr>CLinkages := CLinkages p @ [ResolveDepPath w base depPath]\<rparr>)
      else
        let pkg = PkgHeap p newPkg;
            p1 = p\<lparr>PkgHeap := (PkgHeap p)(newPkg :=
                   pkg\<lparr>DependencyPaths :=
                     DependencyPaths pkg @ [ReduceToDir w (ResolveDepPath w base depPath)]\<rparr>)\<rparr>
        in case ParseDep rec w base depPath p1 of
             Inl a \<Rightarrow> Inl a
           | Inr p2 \<Rightarrow> ParseText_paths rec w base newPkg clinkage paths p2)"

fun ParseText_deps ::
  "(string \<Rightarrow> Program \<Rightarrow> abort + Program) \<Rightarrow> (Node, 'x) world_scheme
    \<Rightarrow> string \<Rightarrow> pkgref \<Rightarrow> Node list \<Rightarrow> Program \<Rightarrow> abort + Program" where
  "ParseText_deps rec w base newPkg [] p = Inr p"
| "ParseText_deps rec w base newPkg (DependencyNode paths clinkage # nodes) p =
     (case ParseText_paths rec w base newPkg clinkage paths p of
        Inl a \<Rightarrow> Inl a
      | Inr p1 \<Rightarrow> ParseText_deps rec w base newPkg nodes p1)"
| "ParseText_deps rec w base newPkg (n # nodes) p = ParseText_deps rec w base newPkg nodes p"

definition ParseText ::
  "(string \<Rightarrow> Program \<Rightarrow> abort + Program) \<Rightarrow> 'x loaderWorld_scheme
    \<Rightarrow> string \<Rightarrow> string \<Rightarrow> Program \<Rightarrow> abort + Program" where
  "ParseText rec w code path p =
     (let p1 = p\<lparr>ParsedFiles := ParsedFiles p @ [path]\<rparr>
      in if NewSourcefile_fails w path then Inl (FatalSourcefile path)
         else
           let src = (path, code);
               nodes = Parse_Lex w path code
           in case NamespaceFromNodes nodes of
                None \<Rightarrow> Inl (FatalNamespace (Clean path))
              | Some name \<Rightarrow>
                  if \<not> MatchString name \<and> log_Error_exits w then Inl (ErrorInvalidNamespace name)
                  else
                    let (newPkg, p2) = NewPackage w name p1;
                        p3 = p2\<lparr>PkgHeap := (PkgHeap p2)(newPkg :=
                               (PkgHeap p2 newPkg)\<lparr>Files := (Files (PkgHeap p2 newPkg))(path \<mapsto> src),
                                  Nodes := nodes\<rparr>)\<rparr>;
                        p4 = (if Packages p3 path = None
                              then p3\<lparr>Packages := (Packages p3)(path \<mapsto> newPkg)\<rparr>
                              else p3)
                    in ParseText_deps rec w (Dir path) newPkg nodes p4)"

text \<open>\<open>ParseFile\<close> (lines 217-224).\<close>

definition ParseFile ::
  "(string \<Rightarrow> Program \<Rightarrow> abort + Program) \<Rightarrow> 'x loaderWorld_scheme
    \<Rightarrow> string \<Rightarrow> Program \<Rightarrow> abort + Program" where
  "ParseFile rec w path p =
     (case readFile w path of
        None \<Rightarrow> Inl (FatalReadFile path)
      | Some bytes \<Rightarrow> ParseText rec w bytes path p)"

text \<open>
  \<open>ParsePath\<close> (lines 95-120); \<open>ParsePath_files\<close> is its loop over the files found.
  The first argument bounds the depth of the recursion through dependencies.
\<close>

fun ParsePath_files ::
  "(string \<Rightarrow> Program \<Rightarrow> abort + Program) \<Rightarrow> 'x loaderWorld_scheme
    \<Rightarrow> string list \<Rightarrow> Program \<Rightarrow> abort + Program" where
  "ParsePath_files rec w [] p = Inr p"
| "ParsePath_files rec w (file # files) p =
     (case ParseFile rec w file p of
        Inl a \<Rightarrow> Inl a
      | Inr p1 \<Rightarrow> ParsePath_files rec w files p1)"

primrec ParsePath ::
  "nat \<Rightarrow> 'x loaderWorld_scheme \<Rightarrow> string \<Rightarrow> Program \<Rightarrow> abort + Program" where
  "ParsePath 0 w dir p = Inl OutOfFuel"
| "ParsePath (Suc fuel) w dir p =
     (let dir1 = (if PathIsDir w dir then dir else Dir dir);
          dir2 = ReduceToDir w dir1
      in case Abs w dir2 of
           None \<Rightarrow> Inl FatalEntryLocation
         | Some absEntry \<Rightarrow>
             (case ParseDir w p absEntry of
                None \<Rightarrow> Inl FatalParseDir
              | Some files \<Rightarrow> ParsePath_files (ParsePath fuel w) w files p))"

text \<open>
  \<open>NewProgram\<close> (lines 45-66), without the cast-precedence table. \<open>NewScope\<close> and
  \<open>InjectPrimitives\<close> are not under src/; after the specification, the root scope
  (scope 0 here) has no parent and holds the primitive bindings, which are the argument.
\<close>

definition NewProgram :: "(string \<rightharpoonup> ty option) \<Rightarrow> Program" where
  "NewProgram primitives =
     \<lparr>Scope = 0,
      ScopeHeap = (\<lambda>r. \<lparr>Parent = None, PackageName = [], Index = 0, Types = primitives,
                          DebugInfo = None\<rparr>),
      NextScope = 1,
      Compiler = [],
      NamedMetadata = [],
      ParsedFiles = [],
      Packages = Map.empty,
      PkgHeap = (\<lambda>r. \<lparr>Package_Name = [], Files = Map.empty, Nodes = [], DependencyPaths = []\<rparr>),
      NextPkg = 0,
      Package = None,
      CLinkages = [],
      Functions = Map.empty,
      NodeHeap = (\<lambda>r. \<lparr>Name_String = [], Name_Value = [], Args = [], Variadic = False,
                         Nomangle = False, External = False, FunctionNode_Package = None,
                         Variants = Map.empty, NameCache = [], Compiled = False\<rparr>),
      NextNode = 0,
      Classes = Map.empty\<rparr>"

section \<open>Invariants of the loader\<close>

text \<open>
  What can be said whatever \<open>NewPackage\<close> does, as long as it leaves the Package map
  and the parsed-file list alone: every key of the Package map is the path of a parsed
  file, entries are never replaced, and the parsed-file list only grows.
\<close>

definition keepsMap :: "'x loaderWorld_scheme \<Rightarrow> bool" where
  "keepsMap w = (\<forall>name q. Packages (snd (NewPackage w name q)) = Packages q
      \<and> ParsedFiles (snd (NewPackage w name q)) = ParsedFiles q)"

definition pathKeyed :: "Program \<Rightarrow> bool" where
  "pathKeyed p = (dom (Packages p) \<subseteq> set (ParsedFiles p))"

definition keeps :: "Program \<Rightarrow> Program \<Rightarrow> bool" where
  "keeps p p' =
     ((\<forall>k r. Packages p k = Some r \<longrightarrow> Packages p' k = Some r)
      \<and> set (ParsedFiles p) \<subseteq> set (ParsedFiles p')
      \<and> (pathKeyed p \<longrightarrow> pathKeyed p'))"

text \<open>The rest is for the loader whose \<open>NewPackage\<close> is \<open>allocPackage\<close>.\<close>

text \<open>
  Every entry of the Package map is keyed by the path of a parsed file and refers to an
  allocated Package object whose only file is the one at that key.
\<close>

definition pkgInv :: "Program \<Rightarrow> bool" where
  "pkgInv p = (\<forall>path r. Packages p path = Some r \<longrightarrow>
      r < NextPkg p \<and> path \<in> set (ParsedFiles p) \<and> dom (Files (PkgHeap p r)) = {path})"

text \<open>
  What every step of the loader does to the Program: Package objects are only added,
  entries of the Package map are never replaced, the name, files and nodes of an existing
  Package object are never changed, and the parsed-file list only grows.
\<close>

definition grows :: "Program \<Rightarrow> Program \<Rightarrow> bool" where
  "grows p p' =
     (NextPkg p \<le> NextPkg p'
      \<and> (\<forall>k r. Packages p k = Some r \<longrightarrow> Packages p' k = Some r)
      \<and> (\<forall>r < NextPkg p. Package_Name (PkgHeap p' r) = Package_Name (PkgHeap p r)
            \<and> Files (PkgHeap p' r) = Files (PkgHeap p r)
            \<and> Nodes (PkgHeap p' r) = Nodes (PkgHeap p r))
      \<and> set (ParsedFiles p) \<subseteq> set (ParsedFiles p')
      \<and> (pkgInv p \<longrightarrow> pkgInv p'))"

section \<open>Scopes\<close>

text \<open>
  Modelled from the spec: the \<open>Scope\<close> type and its methods \<open>GetRoot\<close>,
  \<open>SpawnChild\<close> and \<open>RegisterType\<close> are not under src/. The specification gives a
  scope an optional parent link, a package-name field, an index that is monotonic within
  the tree and a table of type bindings; the parent chain is acyclic and ends at a root,
  so following it takes fewer steps than there are scopes; a push acquires a child of the
  current scope. The child is taken to start with its parent's package name and an empty
  table.
\<close>

fun GetRoot_walk :: "nat \<Rightarrow> (scoperef \<Rightarrow> Scope) \<Rightarrow> scoperef \<Rightarrow> scoperef" where
  "GetRoot_walk 0 h s = s"
| "GetRoot_walk (Suc n) h s =
     (case Parent (h s) of None \<Rightarrow> s | Some parent \<Rightarrow> GetRoot_walk n h parent)"

definition GetRoot :: "Program \<Rightarrow> scoperef \<Rightarrow> scoperef" where
  "GetRoot p s = GetRoot_walk (NextScope p) (ScopeHeap p) s"

definition SpawnChild :: "Program \<Rightarrow> scoperef \<Rightarrow> scoperef \<times> Program" where
  "SpawnChild p s =
     (NextScope p,
      p\<lparr>ScopeHeap := (ScopeHeap p)(NextScope p :=
           \<lparr>Parent = Some s, PackageName = PackageName (ScopeHeap p s), Index = NextScope p,
            Types = Map.empty, DebugInfo = None\<rparr>),
        NextScope := Suc (NextScope p)\<rparr>)"

definition RegisterType :: "Program \<Rightarrow> string \<Rightarrow> ty option \<Rightarrow> Program" where
  "RegisterType p name t =
     p\<lparr>ScopeHeap := (ScopeHeap p)(Scope p :=
         (ScopeHeap p (Scope p))\<lparr>Types := (Types (ScopeHeap p (Scope p)))(name \<mapsto> t)\<rparr>)\<rparr>"

section \<open>The lowering methods outside src/\<close>

text \<open>
  What \<open>Congeal\<close> and \<open>GetFunction\<close> call on nodes and on the discovery worker, none
  of it under src/. Each takes the Program and may change any of it; one that can fail
  returns an error message or its result. \<open>Codegen\<close> of a function node returns the
  lowered function, \<open>Declare\<close> the declared one (either may be \<open>nil\<close>).
  \<open>MangledName\<close> only reads. \<open>EnableDebug\<close> is the debug flag of the command line.
\<close>

record lowerer =
  EnableDebug :: bool
  NewCompiler :: "Program \<Rightarrow> Compiler"
  ClassNode_Declare :: "ClassNode \<Rightarrow> Program \<Rightarrow> string option \<times> Program"
  ClassNode_VerifyCorrectness :: "ClassNode \<Rightarrow> Program \<Rightarrow> Program"
  ClassNode_Codegen :: "ClassNode \<Rightarrow> Program \<Rightarrow> string option \<times> Program"
  GlobalVariableDeclNode_Declare :: "nat \<Rightarrow> Program \<Rightarrow> string option \<times> Program"
  Discover :: "string \<Rightarrow> pkgref option \<Rightarrow> ty option list option \<Rightarrow> Program \<Rightarrow> Program"
  Arguments :: "noderef \<Rightarrow> Program \<Rightarrow> (string + ty option list) \<times> Program"
  MangledName :: "noderef \<Rightarrow> Program \<Rightarrow> ty option list \<Rightarrow> string"
  Declare :: "noderef \<Rightarrow> Program \<Rightarrow> (string + irfun option) \<times> Program"
  Codegen :: "noderef \<Rightarrow> Program \<Rightarrow> (string + irfun option) \<times> Program"

section \<open>Scope stepping and the Program Driver (src/pkg/ast/Program.go)\<close>

datatype gerror =
    ErrScopeUp
  | ErrArguments string
  | ErrVariadicMinimum string nat nat
  | ErrArgumentCount string nat nat
  | ErrArgumentType string ty ty
  | ErrDeclare string
  | ErrCodegen string
  | ErrFindFunction "string list"
  | IndexPanic

text \<open>\<open>ScopeUp\<close> (lines 69-76).\<close>

definition ScopeUp :: "Program \<Rightarrow> gerror + Program" where
  "ScopeUp p =
     (case Parent (ScopeHeap p (Scope p)) of
        None \<Rightarrow> Inl ErrScopeUp
      | Some parent \<Rightarrow> Inr (p\<lparr>Scope := parent\<rparr>))"

text \<open>\<open>ScopeDown\<close> (lines 79-90).\<close>

definition ScopeDown :: "lowerer \<Rightarrow> Program \<Rightarrow> Program" where
  "ScopeDown x p =
     (let (child, p1) = SpawnChild p (Scope p);
          p2 = p1\<lparr>Scope := child\<rparr>
      in if EnableDebug x then
           p2\<lparr>NamedMetadata := NamedMetadata p2 @ [Index (ScopeHeap p2 (Scope p2))],
              ScopeHeap := (ScopeHeap p2)(Scope p2 :=
                (ScopeHeap p2 (Scope p2))\<lparr>DebugInfo := Some (Index (ScopeHeap p2 (Scope p2)))\<rparr>)\<rparr>
         else p2)"

text \<open>\<open>RegisterFunction\<close> (lines 245-247): the map entry points to a copy of its own.\<close>

definition RegisterFunction :: "Program \<Rightarrow> string \<Rightarrow> FunctionNode \<Rightarrow> Program" where
  "RegisterFunction p name fn =
     p\<lparr>NodeHeap := (NodeHeap p)(NextNode p := fn),
       Functions := (Functions p)(name \<mapsto> NextNode p),
       NextNode := Suc (NextNode p)\<rparr>"

text \<open>\<open>PackagedNode\<close>, \<open>PackageNode\<close> and \<open>SetupContext\<close> (lines 683-709).\<close>

record PackagedNode =
  Pkg :: pkgref
  Node :: Node

definition PackageNode :: "Node \<Rightarrow> pkgref \<Rightarrow> PackagedNode" where
  "PackageNode node pkg = \<lparr>Pkg = pkg, Node = node\<rparr>"

definition SetupContext :: "PackagedNode \<Rightarrow> Program \<Rightarrow> Program" where
  "SetupContext n p =
     p\<lparr>Package := Some (Pkg n),
       ScopeHeap := (ScopeHeap p)(Scope p :=
         (ScopeHeap p (Scope p))\<lparr>PackageName := Package_Name (PkgHeap p (Pkg n))\<rparr>)\<rparr>"

text \<open>
  \<open>Congeal\<close> (lines 250-313). \<open>Congeal_nodes\<close> is the loop over the nodes of one
  Package (lines 261-282) and \<open>Congeal_packages\<close> the loop over the Packages (lines
  260-283). Go visits the entries of a map in an order of its choosing: the keys in the
  order of the visit are the argument \<open>order\<close>.
\<close>

fun Congeal_nodes ::
  "pkgref \<Rightarrow> Node list \<Rightarrow> PackagedNode list \<Rightarrow> Program \<Rightarrow> PackagedNode list \<times> Program" where
  "Congeal_nodes pkg [] nodes p = (nodes, p)"
| "Congeal_nodes pkg (node # rest) nodes p =
     (let p1 = (case node of
                  FunctionNodeOf fn \<Rightarrow>
                    let name0 = Package_Name (PkgHeap p pkg) @ '':'' @ Name_String fn;
                        name = (if Name_String fn = ''main'' \<or> Package_Name (PkgHeap p pkg) = ''runtime''
                                then Name_String fn else name0)
                    in RegisterFunction p name (fn\<lparr>FunctionNode_Package := Some pkg\<rparr>)
                | _ \<Rightarrow> p);
          p2 = (case node of
                  ClassNodeOf cls \<Rightarrow>
                    let name0 = Package_Name (PkgHeap p1 pkg) @ '':'' @ ClassNode_Name cls;
                        name = (if Package_Name (PkgHeap p1 pkg) = ''runtime''
                                then ClassNode_Name cls else name0)
                    in p1\<lparr>Classes := (Classes p1)(name \<mapsto> cls\<lparr>ClassNode_Package := Some pkg\<rparr>)\<rparr>
                | _ \<Rightarrow> p1)
      in Congeal_nodes pkg rest (nodes @ [PackageNode node pkg]) p2)"

fun Congeal_packages ::
  "string list \<Rightarrow> PackagedNode list \<Rightarrow> Program \<Rightarrow> PackagedNode list \<times> Program" where
  "Congeal_packages [] nodes p = (nodes, p)"
| "Congeal_packages (k # order) nodes p =
     (case Packages p k of
        None \<Rightarrow> Congeal_packages order nodes p
      | Some pkg \<Rightarrow>
          let (nodes1, p1) = Congeal_nodes pkg (Nodes (PkgHeap p pkg)) nodes p
          in Congeal_packages order nodes1 p1)"

text \<open>Lines 251-283: the registries are emptied and filled.\<close>

definition Congeal_register ::
  "lowerer \<Rightarrow> string list \<Rightarrow> Program \<Rightarrow> PackagedNode list \<times> Program" where
  "Congeal_register x order p =
     (let p1 = p\<lparr>NamedMetadata := [], Functions := Map.empty, Classes := Map.empty\<rparr>;
          p2 = p1\<lparr>Compiler := NewCompiler x p1\<rparr>
      in Congeal_packages order [] p2)"

text \<open>
  Lines 285-310: the three loops over the class nodes and the global declarations; an
  error ends \<open>Congeal\<close>, but the one of \<open>VerifyCorrectness\<close> is only reported.
\<close>

fun Congeal_declareClasses :: "lowerer \<Rightarrow> PackagedNode list \<Rightarrow> Program \<Rightarrow> string option \<times> Program" where
  "Congeal_declareClasses x [] p = (None, p)"
| "Congeal_declareClasses x (n # ns) p =
     (case Node n of
        ClassNodeOf cls \<Rightarrow>
          (case ClassNode_Declare x cls (SetupContext n p) of
             (Some err, p1) \<Rightarrow> (Some err, p1)
           | (None, p1) \<Rightarrow> Congeal_declareClasses x ns p1)
      | _ \<Rightarrow> Congeal_declareClasses x ns p)"

fun Congeal_codegenClasses :: "lowerer \<Rightarrow> PackagedNode list \<Rightarrow> Program \<Rightarrow> string option \<times> Program" where
  "Congeal_codegenClasses x [] p = (None, p)"
| "Congeal_codegenClasses x (n # ns) p =
     (case Node n of
        ClassNodeOf cls \<Rightarrow>
          (case ClassNode_Codegen x cls (ClassNode_VerifyCorrectness x cls (SetupContext n p)) of
             (Some err, p1) \<Rightarrow> (Some err, p1)
           | (None, p1) \<Rightarrow> Congeal_codegenClasses x ns p1)
      | _ \<Rightarrow> Congeal_codegenClasses x ns p)"

fun Congeal_declareGlobals :: "lowerer \<Rightarrow> PackagedNode list \<Rightarrow> Program \<Rightarrow> string option \<times> Program" where
  "Congeal_declareGlobals x [] p = (None, p)"
| "Congeal_declareGlobals x (n # ns) p =
     (case Node n of
        GlobalVariableDeclNode g \<Rightarrow>
          (case GlobalVariableDeclNode_Declare x g (SetupContext n p) of
             (Some err, p1) \<Rightarrow> (Some err, p1)
           | (None, p1) \<Rightarrow> Congeal_declareGlobals x ns p1)
      | _ \<Rightarrow> Congeal_declareGlobals x ns p)"

definition Congeal :: "lowerer \<Rightarrow> string list \<Rightarrow> Program \<Rightarrow> string option \<times> Program" where
  "Congeal x order p =
     (let (nodes, p1) = Congeal_register x order p
      in case Congeal_declareClasses x nodes p1 of
           (Some err, p2) \<Rightarrow> (Some err, p2)
         | (None, p2) \<Rightarrow>
             (case Congeal_codegenClasses x nodes p2 of
                (Some err, p3) \<Rightarrow> (Some err, p3)
              | (None, p3) \<Rightarrow> Congeal_declareGlobals x nodes p3))"

section \<open>Function Compiler (src/pkg/ast/Program.go)\<close>

text \<open>
  \<open>FunctionCompilationOptions\<close> (lines 324-326). The argument types are a slice that
  may be \<open>nil\<close>, of types that may be \<open>nil\<close>.
\<close>

record FunctionCompilationOptions =
  ArgTypes :: "ty option list option"

text \<open>
  \<open>GetFunction\<close> (lines 405-520), in pieces: the arity check of lines 444-456, the
  loop of lines 466-483, lines 486-519 (from the variant key to the restoring of the
  saved context), the priming of lines 420-434, and the whole function. The result is
  the returned function (possibly \<open>nil\<close>) or error, and the Program as the return
  leaves it. The key of the assignment of line 498 is read before \<open>Declare\<close> runs.
\<close>

definition GetFunction_arity ::
  "string \<Rightarrow> bool \<Rightarrow> ty option list \<Rightarrow> ty option list option \<Rightarrow> gerror option" where
  "GetFunction_arity name variadic rawTypes argTypes =
     (case argTypes of
        None \<Rightarrow> None
      | Some given \<Rightarrow>
          if length rawTypes \<noteq> length given then
            (if variadic then
               (if length rawTypes > length given
                then Some (ErrVariadicMinimum name (length rawTypes) (length given))
                else None)
             else Some (ErrArgumentCount name (length rawTypes) (length given)))
          else None)"

fun GetFunction_types ::
  "string \<Rightarrow> TypeNode list \<Rightarrow> ty option list \<Rightarrow> nat \<Rightarrow> ty option list \<Rightarrow> ty option list
    \<Rightarrow> Program \<Rightarrow> (gerror + ty option list) \<times> Program" where
  "GetFunction_types fname args given i [] correctTypes p = (Inr correctTypes, p)"
| "GetFunction_types fname args given i (expected # rawTypes) correctTypes p =
     (if i < length args \<and> i < length given then
        let nodeParamType = args ! i;
            g = given ! i;
            unknown = Unknown nodeParamType;
            mismatch = (case (expected, g) of
                          (Some e, Some gv) \<Rightarrow>
                            if e \<noteq> gv \<and> \<not> typesAreLooselyEqual gv e \<and> \<not> unknown
                            then Some (ErrArgumentType fname gv e) else None
                        | _ \<Rightarrow> None)
        in case mismatch of
             Some err \<Rightarrow> (Inl err, p)
           | None \<Rightarrow>
               if unknown then
                 GetFunction_types fname args given (Suc i) rawTypes (correctTypes @ [g])
                   (RegisterType p (TypeNode_Name nodeParamType) g)
               else
                 GetFunction_types fname args given (Suc i) rawTypes (correctTypes @ [expected]) p
      else (Inl IndexPanic, p))"

definition GetFunction_restore ::
  "pkgref option \<Rightarrow> scoperef \<Rightarrow> Compiler \<Rightarrow> Program \<Rightarrow> Program" where
  "GetFunction_restore previousPackage previousScope previousCompiler p =
     p\<lparr>Package := previousPackage, Scope := previousScope, Compiler := previousCompiler\<rparr>"

definition GetFunction_compiledVal :: "noderef \<Rightarrow> Program \<Rightarrow> irfun option" where
  "GetFunction_compiledVal node p =
     (case Variants (NodeHeap p node) (NameCache (NodeHeap p node)) of
        None \<Rightarrow> None
      | Some f \<Rightarrow> f)"

definition GetFunction_variant ::
  "lowerer \<Rightarrow> noderef \<Rightarrow> ty option list \<Rightarrow> pkgref option \<Rightarrow> scoperef \<Rightarrow> Compiler
    \<Rightarrow> Program \<Rightarrow> (gerror + irfun option) \<times> Program" where
  "GetFunction_variant x node correctTypes previousPackage previousScope previousCompiler p =
     (let cache = (if Nomangle (NodeHeap p node) then Name_Value (NodeHeap p node)
                   else MangledName x node p correctTypes);
          p1 = p\<lparr>NodeHeap := (NodeHeap p)(node := (NodeHeap p node)\<lparr>NameCache := cache\<rparr>)\<rparr>
      in case Variants (NodeHeap p1 node) cache of
           Some f \<Rightarrow>
             (Inr f, GetFunction_restore previousPackage previousScope previousCompiler p1)
         | None \<Rightarrow>
             (case Declare x node p1 of
                (r, p2) \<Rightarrow>
                  let declared = (case r of Inl err \<Rightarrow> None | Inr f \<Rightarrow> f);
                      p3 = p2\<lparr>NodeHeap := (NodeHeap p2)(node :=
                             (NodeHeap p2 node)\<lparr>Variants :=
                               (Variants (NodeHeap p2 node))(cache \<mapsto> declared)\<rparr>)\<rparr>
                  in case r of
                       Inl err \<Rightarrow> (Inl (ErrDeclare err), p3)
                     | Inr f \<Rightarrow>
                         let p4 = p3\<lparr>NodeHeap := (NodeHeap p3)(node :=
                                    (NodeHeap p3 node)\<lparr>Compiled := True\<rparr>)\<rparr>
                         in if \<not> External (NodeHeap p4 node) then
                              (case Codegen x node p4 of
                                 (Inl err, p5) \<Rightarrow> (Inl (ErrCodegen err), p5)
                               | (Inr gen, p5) \<Rightarrow>
                                   let p6 = p5\<lparr>NodeHeap := (NodeHeap p5)(node :=
                                              (NodeHeap p5 node)\<lparr>Variants :=
                                                (Variants (NodeHeap p5 node))
                                                  (NameCache (NodeHeap p5 node) \<mapsto> gen)\<rparr>)\<rparr>
                                   in (Inr (GetFunction_compiledVal node p6),
                                       GetFunction_restore previousPackage previousScope
                                         previousCompiler p6))
                            else
                              (Inr (GetFunction_compiledVal node p4),
                               GetFunction_restore previousPackage previousScope
                                 previousCompiler p4)))"

definition GetFunction_prime ::
  "lowerer \<Rightarrow> string \<Rightarrow> FunctionCompilationOptions \<Rightarrow> noderef \<Rightarrow> Program \<Rightarrow> Program" where
  "GetFunction_prime x name options node p =
     (let p1 = p\<lparr>Scope := GetRoot p (Scope p)\<rparr>;
          p2 = (case FunctionNode_Package (NodeHeap p1 node) of
                  None \<Rightarrow> p1
                | Some pkg \<Rightarrow>
                    p1\<lparr>Package := Some pkg,
                       ScopeHeap := (ScopeHeap p1)(Scope p1 :=
                         (ScopeHeap p1 (Scope p1))\<lparr>PackageName :=
                           Package_Name (PkgHeap p1 pkg)\<rparr>)\<rparr>);
          p3 = ScopeDown x p2
      in Discover x name (Package p3) (ArgTypes options) p3)"

definition GetFunction ::
  "lowerer \<Rightarrow> string \<Rightarrow> FunctionCompilationOptions \<Rightarrow> Program
    \<Rightarrow> (gerror + irfun option) \<times> Program" where
  "GetFunction x name options p =
     (let previousPackage = Package p;
          previousScope = Scope p;
          previousCompiler = Compiler p
      in case Functions p name of
           None \<Rightarrow> (Inr None, p)
         | Some node \<Rightarrow>
             let p4 = GetFunction_prime x name options node p
             in case Arguments x node p4 of
                  (Inl err, p5) \<Rightarrow> (Inl (ErrArguments err), p5)
                | (Inr rawTypes, p5) \<Rightarrow>
                    (case GetFunction_arity name (Variadic (NodeHeap p5 node)) rawTypes
                            (ArgTypes options) of
                       Some err \<Rightarrow> (Inl err, p5)
                     | None \<Rightarrow>
                         (case (case ArgTypes options of
                                  None \<Rightarrow> (Inr [], p5)
                                | Some given \<Rightarrow>
                                    if \<not> Variadic (NodeHeap p5 node)
                                    then GetFunction_types (Name_String (NodeHeap p5 node))
                                           (Args (NodeHeap p5 node)) given 0 rawTypes [] p5
                                    else (Inr [], p5)) of
                            (Inl err, p6) \<Rightarrow> (Inl err, p6)
                          | (Inr correctTypes, p6) \<Rightarrow>
                              GetFunction_variant x node correctTypes previousPackage
                                previousScope previousCompiler p6)))"

text \<open>\<open>FindFunction\<close> (lines 385-401).\<close>

fun FindFunction_loop ::
  "lowerer \<Rightarrow> string list \<Rightarrow> ty option list option \<Rightarrow> Program
    \<Rightarrow> (gerror + irfun option) \<times> Program" where
  "FindFunction_loop x [] argTypes p = (Inr None, p)"
| "FindFunction_loop x (name # searchNames) argTypes p =
     (case GetFunction x name \<lparr>ArgTypes = argTypes\<rparr> p of
        (Inl err, p1) \<Rightarrow> (Inl err, p1)
      | (Inr (Some callee), p1) \<Rightarrow> (Inr (Some callee), p1)
      | (Inr None, p1) \<Rightarrow> FindFunction_loop x searchNames argTypes p1)"

definition FindFunction ::
  "lowerer \<Rightarrow> string list \<Rightarrow> ty option list option \<Rightarrow> Program
    \<Rightarrow> (gerror + irfun option) \<times> Program" where
  "FindFunction x searchNames argTypes p =
     (case FindFunction_loop x searchNames argTypes p of
        (Inr None, p1) \<Rightarrow> (Inl (ErrFindFunction searchNames), p1)
      | r \<Rightarrow> r)"

text \<open>The kinds of error \<open>GetFunction\<close> makes itself.\<close>

fun isArityError :: "gerror \<Rightarrow> bool" where
  "isArityError (ErrVariadicMinimum name d n) = True"
| "isArityError (ErrArgumentCount name d n) = True"
| "isArityError e = False"

fun isTypeError :: "gerror \<Rightarrow> bool" where
  "isTypeError (ErrArgumentType name given expected) = True"
| "isTypeError e = False"

section \<open>Invariants of the function registry\<close>

text \<open>The key of lines 264-267, from the name of the Package and the name of the function.\<close>

definition registryKey :: "string \<Rightarrow> string \<Rightarrow> string" where
  "registryKey pkgName fnName =
     (if fnName = ''main'' \<or> pkgName = ''runtime'' then fnName else pkgName @ '':'' @ fnName)"

text \<open>
  Every entry of the function registry refers to an allocated node that carries its
  Package, and its key is the one computed from that Package's name and the node's name.
\<close>

definition keyed :: "Program \<Rightarrow> bool" where
  "keyed p = (\<forall>key r. Functions p key = Some r \<longrightarrow>
      r < NextNode p \<and>
      (\<exists>pkg. FunctionNode_Package (NodeHeap p r) = Some pkg \<and>
         key = registryKey (Package_Name (PkgHeap p pkg)) (Name_String (NodeHeap p r))))"

text \<open>
  What a step of the registration loops does: Packages are untouched, registered keys
  stay registered, and \<open>keyed\<close> is kept.
\<close>

definition regStep :: "Program \<Rightarrow> Program \<Rightarrow> bool" where
  "regStep p p' = (PkgHeap p' = PkgHeap p \<and> Packages p' = Packages p
      \<and> dom (Functions p) \<subseteq> dom (Functions p') \<and> (keyed p \<longrightarrow> keyed p'))"

section \<open>Example inputs\<close>

definition entryBlock :: BasicBlock where
  "entryBlock = \<lparr>Name = ''entry'', Insts = [], Term = None\<rparr>"

definition returnedBlock :: BasicBlock where
  "returnedBlock = \<lparr>Name = ''then'', Insts = [], Term = Some (TermRet (ConstInt 32 1))\<rparr>"

definition exampleHeap :: blockheap where
  "exampleHeap = (\<lambda>r. if r = 1 then returnedBlock else entryBlock)"

definition notOfInt :: UnaryNode where
  "notOfInt = \<lparr>Operator = ''!'', Operand_Alloca = None,
     Operand_Codegen = (\<lambda>b. (Inr (Opaque I32 7), b))\<rparr>"

definition notOfDouble :: UnaryNode where
  "notOfDouble = \<lparr>Operator = ''!'', Operand_Alloca = None,
     Operand_Codegen = (\<lambda>b. (Inr (Opaque Double 7), b))\<rparr>"

text \<open>
  A file system in which \<open>/proj\<close> and \<open>/proj/geodepkgs/util\<close> are the only
  directories, and nothing can be read.
\<close>

definition exampleWorld :: "unit world" where
  "exampleWorld = \<lparr>isDirectory = (\<lambda>p. p = ''/proj'' \<or> p = ''/proj/geodepkgs/util''),
     readdir = (\<lambda>d. None), readFile = (\<lambda>f. None), getwd = None,
     StdLibFile = (\<lambda>f. ''/usr/local/lib/geode''), NewSourcefile_fails = (\<lambda>f. False),
     Parse_Lex = (\<lambda>f c. []), log_Error_exits = False\<rparr>"

text \<open>
  A project directory \<open>/proj\<close> with two source files that both declare the namespace
  \<open>m\<close>, and a parser that reads the four texts used below. Here \<open>log.Error\<close> is taken
  to end the process, and \<open>NewPackage\<close> to be \<open>allocPackage\<close>.
\<close>

definition twoFiles :: loaderWorld where
  "twoFiles = \<lparr>isDirectory = (\<lambda>p. p = ''/proj''),
     readdir = (\<lambda>d. if d = ''/proj'' then Some [''a.g'', ''notes.txt'', ''b.g''] else None),
     readFile = (\<lambda>f. if f = ''/proj/a.g'' then Some ''is m func f''
                       else if f = ''/proj/b.g'' then Some ''is m func g'' else None),
     getwd = Some ''/'',
     StdLibFile = (\<lambda>f. ''/usr/local/lib/geode''),
     NewSourcefile_fails = (\<lambda>f. False),
     Parse_Lex = (\<lambda>f c. if c = ''is m func f'' then [NamespaceNode ''m'', OtherNode 0]
                          else if c = ''is m func g'' then [NamespaceNode ''m'', OtherNode 1]
                          else if c = ''is Foo'' then [NamespaceNode ''Foo'']
                          else if c = ''is FOO'' then [NamespaceNode ''FOO'']
                          else []),
     log_Error_exits = True,
     NewPackage = allocPackage\<rparr>"

definition twoFilesLoaded :: "abort + Program" where
  "twoFilesLoaded = ParsePath 1 twoFiles ''/proj'' (NewProgram Map.empty)"

definition fooLoaded :: "abort + Program" where
  "fooLoaded = ParseText (ParsePath 0 twoFiles) twoFiles ''is Foo'' ''/proj/c.g'' (NewProgram Map.empty)"

text \<open>
  Lowering methods for the examples: every declared parameter has type \<open>i32\<close>, the
  mangled name is the source name followed by \<open>_v\<close>, declaring and lowering succeed
  and return the function named by the node's name cache, nothing else is changed.
\<close>

definition plainLowerer :: lowerer where
  "plainLowerer =
     \<lparr>EnableDebug = False,
      NewCompiler = (\<lambda>p. []),
      ClassNode_Declare = (\<lambda>c p. (None, p)),
      ClassNode_VerifyCorrectness = (\<lambda>c p. p),
      ClassNode_Codegen = (\<lambda>c p. (None, p)),
      GlobalVariableDeclNode_Declare = (\<lambda>g p. (None, p)),
      Discover = (\<lambda>name pkg argTypes p. p),
      Arguments = (\<lambda>node p. (Inr (map (\<lambda>a. Some I32) (Args (NodeHeap p node))), p)),
      MangledName = (\<lambda>node p correctTypes. Name_Value (NodeHeap p node) @ ''_v''),
      Declare = (\<lambda>node p. (Inr (Some (NameCache (NodeHeap p node))), p)),
      Codegen = (\<lambda>node p. (Inr (Some (NameCache (NodeHeap p node))), p))\<rparr>"

text \<open>
  Function nodes: \<open>f\<close> with one \<open>int\<close> parameter, and the variadic \<open>g\<close> of the
  specification's boundary scenario (\<open>func g(int, ...) void\<close>).
\<close>

definition nodeF :: FunctionNode where
  "nodeF = \<lparr>Name_String = ''f'', Name_Value = ''f'',
     Args = [\<lparr>TypeNode_Name = ''int'', Unknown = False\<rparr>],
     Variadic = False, Nomangle = False, External = False, FunctionNode_Package = None,
     Variants = Map.empty, NameCache = [], Compiled = False\<rparr>"

definition nodeG :: FunctionNode where
  "nodeG = nodeF\<lparr>Name_String := ''g'', Name_Value := ''g'', Variadic := True\<rparr>"

definition nodeMain :: FunctionNode where
  "nodeMain = nodeF\<lparr>Name_String := ''main'', Name_Value := ''main'', Args := []\<rparr>"

definition nodeAlloc :: FunctionNode where
  "nodeAlloc = nodeF\<lparr>Name_String := ''alloc'', Name_Value := ''alloc''\<rparr>"

text \<open>
  A Program after loading: Package 0 is \<open>m\<close> with \<open>f\<close>, \<open>g\<close> and \<open>main\<close>, Package 1
  is \<open>runtime\<close> with \<open>alloc\<close>.
\<close>

definition loadedProgram :: Program where
  "loadedProgram = (NewProgram Map.empty)
     \<lparr>ParsedFiles := [''/proj/a.g'', ''/rt/r.g''],
      Packages := [''/proj/a.g'' \<mapsto> 0, ''/rt/r.g'' \<mapsto> 1],
      PkgHeap := (PkgHeap (NewProgram Map.empty))
        (0 := \<lparr>Package_Name = ''m'', Files = Map.empty,
                Nodes = [NamespaceNode ''m'', FunctionNodeOf nodeF, FunctionNodeOf nodeG,
                         FunctionNodeOf nodeMain],
                DependencyPaths = []\<rparr>,
         1 := \<lparr>Package_Name = ''runtime'', Files = Map.empty,
                Nodes = [NamespaceNode ''runtime'', FunctionNodeOf nodeAlloc],
                DependencyPaths = []\<rparr>),
      NextPkg := 2\<rparr>"

definition congealed :: "PackagedNode list \<times> Program" where
  "congealed = Congeal_register plainLowerer [''/rt/r.g'', ''/proj/a.g''] loadedProgram"

text \<open>
  A Program in the middle of lowering a function of Package 1: the active scope is scope
  1, a child of the root, the cursor is at block 5, and \<open>m:f\<close> and \<open>m:g\<close> of Package
  0 are registered.
\<close>

definition callerState :: Program where
  "callerState = loadedProgram
     \<lparr>Scope := 1,
      ScopeHeap := (ScopeHeap loadedProgram)
        (1 := \<lparr>Parent = Some 0, PackageName = ''runtime'', Index = 1, Types = Map.empty,
                DebugInfo = None\<rparr>),
      NextScope := 2,
      Compiler := [5],
      Package := Some 1,
      Functions := [''m:f'' \<mapsto> 0, ''m:g'' \<mapsto> 1],
      NodeHeap := (NodeHeap loadedProgram)
        (0 := nodeF\<lparr>FunctionNode_Package := Some 0\<rparr>,
         1 := nodeG\<lparr>FunctionNode_Package := Some 0\<rparr>),
      NextNode := 2\<rparr>"

section \<open>Properties of the lowering helpers\<close>

lemma createTypeCast_equal_types:
  "v \<noteq> NilVal \<Longrightarrow> createTypeCast blk v (Type_of v) = (Inr v, blk)"
  by (simp add: createTypeCast_def Let_def)

lemma createTypeCast_int_to_i1:
  assumes "v \<noteq> NilVal" and "IsInt (Type_of v)"
  shows "\<exists>c blk2. createTypeCast blk1 v I1 = (Inr c, blk2) \<and> c \<noteq> NilVal \<and> Type_of c = I1
     \<and> (blk2 = blk1 \<or>
        (blk2 = blk1\<lparr>Insts := Insts blk1 @ [c]\<rparr> \<and> (c = InstTrunc v I1 \<or> c = InstSExt v I1)))"
proof -
  from assms(2) obtain n where n: "Type_of v = IntType n"
    by (cases "Type_of v") auto
  show ?thesis
  proof (cases v)
    case (ConstInt m x)
    then show ?thesis by (simp add: createTypeCast_def Let_def)
  next
    case NilVal
    with assms show ?thesis by simp
  qed (use n assms in \<open>auto simp: createTypeCast_def Let_def emit_def\<close>)
qed

text \<open>
  C2. For a block \<open>b\<close> and a target \<open>t\<close>, \<open>branchIfNoTerminator\<close> returns normally; it
  changes the heap if and only if the terminator slot of \<open>b\<close> is empty at the call, and
  then the only change is that the slot of \<open>b\<close> holds an unconditional branch to \<open>t\<close>
  (name and instructions of \<open>b\<close>, and every other block, are as before); when the slot is
  occupied nothing changes.
\<close>

theorem branchIfNoTerminator_iff_empty:
  "\<exists>h'. branchIfNoTerminator h (Some b) t = Inr h'
      \<and> (Term (h b) = None \<longrightarrow> h' = h(b := (h b)\<lparr>Term := Some (TermBr t)\<rparr>))
      \<and> (Term (h b) \<noteq> None \<longrightarrow> h' = h)
      \<and> (h' \<noteq> h \<longleftrightarrow> Term (h b) = None)"
proof (cases "Term (h b)")
  case None
  have "h(b := (h b)\<lparr>Term := Some (TermBr t)\<rparr>) \<noteq> h"
  proof
    assume "h(b := (h b)\<lparr>Term := Some (TermBr t)\<rparr>) = h"
    then have "(h(b := (h b)\<lparr>Term := Some (TermBr t)\<rparr>)) b = h b"
      by simp
    then have "Term ((h b)\<lparr>Term := Some (TermBr t)\<rparr>) = Term (h b)"
      by simp
    with None show False by simp
  qed
  with None show ?thesis
    by (simp add: branchIfNoTerminator_def NewBr_def)
next
  case (Some a)
  then show ?thesis
    by (simp add: branchIfNoTerminator_def)
qed

theorem branchIfNoTerminator_iff_empty_witness:
  "Term (exampleHeap 0) = None
   \<and> branchIfNoTerminator exampleHeap (Some 0) (Some 2)
       = Inr (exampleHeap(0 := entryBlock\<lparr>Term := Some (TermBr (Some 2))\<rparr>))
   \<and> Term (exampleHeap 1) \<noteq> None
   \<and> branchIfNoTerminator exampleHeap (Some 1) (Some 2) = Inr exampleHeap"
  using branchIfNoTerminator_iff_empty [of exampleHeap 0 "Some 2"]
    branchIfNoTerminator_iff_empty [of exampleHeap 1 "Some 2"]
  by (auto simp: exampleHeap_def entryBlock_def returnedBlock_def)

text \<open>
  C3, on the variant of lines 761-833. A value of type \<open>i8*\<close> cast to \<open>i8*\<close>: the
  call appends a \<open>bitcast\<close> to the current block and returns that instruction, not the
  value it was given.
\<close>

theorem createTypeCast_earlier_pointer_same_type:
  "createTypeCast_earlier entryBlock (Opaque (PointerType I8) 0) (PointerType I8)
     = (Inr (InstBitCast (Opaque (PointerType I8) 0) (PointerType I8)),
        entryBlock\<lparr>Insts := [InstBitCast (Opaque (PointerType I8) 0) (PointerType I8)]\<rparr>)
   \<and> Type_of (Opaque (PointerType I8) 0) = PointerType I8"
  by (simp add: createTypeCast_earlier_def Let_def emit_def entryBlock_def)

lemma createTypeCast_earlier_void_same_type:
  "createTypeCast_earlier blk (Opaque VoidType i) VoidType = (Inr NilVal, blk)"
  by (simp add: createTypeCast_earlier_def Let_def)

text \<open>
  C9. Lowering \<open>!\<close> (lines 211-224) once the operand has been lowered to \<open>v\<close>, leaving
  the block \<open>blk1\<close>. For an integer \<open>v\<close>: the cast of \<open>v\<close> to \<open>i1\<close> succeeds with a value
  \<open>c\<close> of type \<open>i1\<close> and emits what the cast engine emits for it (nothing, or the one
  \<open>trunc\<close> or \<open>sext\<close> that is \<open>c\<close>); then exactly \<open>icmp ne c, false\<close>, the \<open>xor\<close> of
  that with \<open>true\<close>, and the \<open>zext\<close> of the \<open>xor\<close> to \<open>i32\<close> are appended in this order,
  and the \<open>zext\<close>, of type \<open>i32\<close>, is returned. For a \<open>nil\<close> or non-integer \<open>v\<close>: an
  error is returned and the block is left as the operand left it.
\<close>

theorem UnaryNode_Codegen_not:
  assumes "Operator n = ''!''" and "Operand_Codegen n blk = (Inr v, blk1)"
  shows "(v \<noteq> NilVal \<and> IsInt (Type_of v) \<longrightarrow>
           (\<exists>c blk2 eq inv ext.
              createTypeCast blk1 v I1 = (Inr c, blk2) \<and> Type_of c = I1
              \<and> (blk2 = blk1 \<or>
                  (blk2 = blk1\<lparr>Insts := Insts blk1 @ [c]\<rparr>
                    \<and> (c = InstTrunc v I1 \<or> c = InstSExt v I1)))
              \<and> eq = InstICmp IntNE c constant_False
              \<and> inv = InstXor eq constant_True
              \<and> ext = InstZExt inv I32
              \<and> Type_of ext = I32
              \<and> UnaryNode_Codegen n blk = (Inr ext, blk2\<lparr>Insts := Insts blk2 @ [eq, inv, ext]\<rparr>)))
       \<and> (v = NilVal \<or> \<not> IsInt (Type_of v) \<longrightarrow>
           UnaryNode_Codegen n blk
             = (Inl (if v = NilVal then ErrNilOperand else ErrNot (Type_of v)), blk1))"
proof (intro conjI impI)
  assume a: "v \<noteq> NilVal \<and> IsInt (Type_of v)"
  then obtain c blk2 where c: "createTypeCast blk1 v I1 = (Inr c, blk2)" "Type_of c = I1"
    "blk2 = blk1 \<or>
      (blk2 = blk1\<lparr>Insts := Insts blk1 @ [c]\<rparr> \<and> (c = InstTrunc v I1 \<or> c = InstSExt v I1))"
    using createTypeCast_int_to_i1 [of v blk1] by blast
  have "UnaryNode_Codegen n blk
      = (Inr (InstZExt (InstXor (InstICmp IntNE c constant_False) constant_True) I32),
         blk2\<lparr>Insts := Insts blk2 @ [InstICmp IntNE c constant_False,
            InstXor (InstICmp IntNE c constant_False) constant_True,
            InstZExt (InstXor (InstICmp IntNE c constant_False) constant_True) I32]\<rparr>)"
    using assms a c(1) by (simp add: UnaryNode_Codegen_def Let_def)
  with c show "\<exists>c blk2 eq inv ext.
              createTypeCast blk1 v I1 = (Inr c, blk2) \<and> Type_of c = I1
              \<and> (blk2 = blk1 \<or>
                  (blk2 = blk1\<lparr>Insts := Insts blk1 @ [c]\<rparr>
                    \<and> (c = InstTrunc v I1 \<or> c = InstSExt v I1)))
              \<and> eq = InstICmp IntNE c constant_False
              \<and> inv = InstXor eq constant_True
              \<and> ext = InstZExt inv I32
              \<and> Type_of ext = I32
              \<and> UnaryNode_Codegen n blk = (Inr ext, blk2\<lparr>Insts := Insts blk2 @ [eq, inv, ext]\<rparr>)"
    by simp
next
  assume "v = NilVal \<or> \<not> IsInt (Type_of v)"
  then show "UnaryNode_Codegen n blk
             = (Inl (if v = NilVal then ErrNilOperand else ErrNot (Type_of v)), blk1)"
    using assms by (auto simp: UnaryNode_Codegen_def)
qed

theorem UnaryNode_Codegen_not_witness:
  "Operator notOfInt = ''!''
   \<and> Operand_Codegen notOfInt entryBlock = (Inr (Opaque I32 7), entryBlock)
   \<and> IsInt (Type_of (Opaque I32 7))
   \<and> UnaryNode_Codegen notOfInt entryBlock
       = (Inr (InstZExt (InstXor (InstICmp IntNE (InstTrunc (Opaque I32 7) I1) constant_False)
                 constant_True) I32),
          entryBlock\<lparr>Insts :=
            [InstTrunc (Opaque I32 7) I1,
             InstICmp IntNE (InstTrunc (Opaque I32 7) I1) constant_False,
             InstXor (InstICmp IntNE (InstTrunc (Opaque I32 7) I1) constant_False) constant_True,
             InstZExt (InstXor (InstICmp IntNE (InstTrunc (Opaque I32 7) I1) constant_False)
                 constant_True) I32]\<rparr>)
   \<and> Operator notOfDouble = ''!''
   \<and> Operand_Codegen notOfDouble entryBlock = (Inr (Opaque Double 7), entryBlock)
   \<and> \<not> IsInt (Type_of (Opaque Double 7))
   \<and> UnaryNode_Codegen notOfDouble entryBlock = (Inl (ErrNot Double), entryBlock)"
  using UnaryNode_Codegen_not [of notOfInt entryBlock "Opaque I32 7" entryBlock]
    UnaryNode_Codegen_not [of notOfDouble entryBlock "Opaque Double 7" entryBlock]
  by (simp add: notOfInt_def notOfDouble_def entryBlock_def createTypeCast_def Let_def emit_def)

section \<open>Properties of the path resolver\<close>

lemma SearchPaths_loop_walkUp:
  "SearchPaths_loop base sp = sp @ map (\<lambda>d. Join d packagedir) (walkUp base)"
proof (induction base sp rule: SearchPaths_loop.induct)
  case (1 base sp)
  show ?case
  proof (cases "base \<noteq> ''/'' \<and> base \<noteq> ''.''")
    case True
    then have "SearchPaths_loop base sp = SearchPaths_loop (Dir base) (sp @ [Join base packagedir])"
      by (subst SearchPaths_loop.simps) simp
    also have "\<dots> = (sp @ [Join base packagedir]) @ map (\<lambda>d. Join d packagedir) (walkUp (Dir base))"
      using 1 True by simp
    also have "\<dots> = sp @ map (\<lambda>d. Join d packagedir) (walkUp base)"
      using True by (subst (2) walkUp.simps) simp
    finally show ?thesis .
  next
    case False
    then show ?thesis
      by (subst SearchPaths_loop.simps, subst walkUp.simps) auto
  qed
qed

lemma ResolveDepPath_loop_find:
  "ResolveDepPath_loop w filename sps
     = map_option (\<lambda>sp. Join sp filename) (find (\<lambda>sp. isDirectory w (Join sp filename)) sps)"
  by (induction sps) (auto simp: Let_def PathIsDir_def)

lemma walkUp_proj: "walkUp ''/proj'' = [''/proj'']"
  by (simp add: walkUp.simps Dir_def Clean_def)

text \<open>
  C5, as the code has it. For a specifier that does not begin with \<open>std:\<close>, the resolver
  goes through the search roots in this order: base/specifier, base,
  \<open>/usr/local/lib/geodelib\<close>, then the \<open>geodepkgs\<close> directory of base and of every
  directory above it (stopping before \<open>/\<close> and \<open>.\<close>). It returns root/specifier for the
  first root such that root/specifier exists and is a directory; if there is none it
  returns base/specifier. The roots themselves are never tested and never returned.
\<close>

theorem ResolveDepPath_first_root:
  assumes "\<not> HasPrefix filename ''std:''"
  shows "ResolveDepPath w base filename =
     (case find (\<lambda>root. isDirectory w (Join root filename))
             ([Join base filename, base, ''/usr/local/lib/geodelib'']
                @ map (\<lambda>d. Join d ''geodepkgs'') (walkUp base)) of
        Some root \<Rightarrow> Join root filename
      | None \<Rightarrow> Join base filename)"
proof -
  have "Join base filename # SearchPaths base
      = [Join base filename, base, ''/usr/local/lib/geodelib'']
          @ map (\<lambda>d. Join d ''geodepkgs'') (walkUp base)"
    by (simp add: SearchPaths_def SearchPaths_loop_walkUp packagedir_def)
  then show ?thesis
    using assms
    by (simp add: ResolveDepPath_def Let_def ResolveDepPath_loop_find split: option.splits)
qed

theorem ResolveDepPath_first_root_witness:
  "\<not> HasPrefix ''util'' ''std:''
   \<and> ResolveDepPath exampleWorld ''/proj'' ''util'' = ''/proj/geodepkgs/util''"
  using ResolveDepPath_first_root [of "''util''" exampleWorld "''/proj''"]
  by (simp add: HasPrefix_def walkUp_proj Join_def Clean_def exampleWorld_def)

text \<open>
  C5, as the claim words it, fails. With base \<open>/proj\<close> and specifier \<open>util\<close>, where
  \<open>/proj/util\<close> does not exist and \<open>/proj\<close> and \<open>/proj/geodepkgs/util\<close> are
  directories: the first candidate of the claim's list that exists and is a directory is
  the base \<open>/proj\<close> itself, and the code returns \<open>/proj/geodepkgs/util\<close>.
\<close>

theorem ResolveDepPath_claimed_counterexample:
  "ResolveDepPath_claimed exampleWorld ''/proj'' ''util'' = ''/proj''
   \<and> ResolveDepPath exampleWorld ''/proj'' ''util'' = ''/proj/geodepkgs/util''
   \<and> ResolveDepPath exampleWorld ''/proj'' ''util''
       \<noteq> ResolveDepPath_claimed exampleWorld ''/proj'' ''util''"
proof -
  have claimed: "ResolveDepPath_claimed exampleWorld ''/proj'' ''util'' = ''/proj''"
    by (simp add: ResolveDepPath_claimed_def claimedCandidates_def walkUp_proj Join_def
        Clean_def exampleWorld_def)
  have code: "ResolveDepPath exampleWorld ''/proj'' ''util'' = ''/proj/geodepkgs/util''"
    by (simp add: ResolveDepPath_def HasPrefix_def SearchPaths_def SearchPaths_loop.simps
        Dir_def Join_def Clean_def packagedir_def PathIsDir_def exampleWorld_def)
  show ?thesis
    by (simp add: claimed code)
qed

section \<open>Properties of the loader\<close>

lemma grows_refl: "grows p p"
  by (simp add: grows_def)

lemma grows_trans: "grows p q \<Longrightarrow> grows q r \<Longrightarrow> grows p r"
  unfolding grows_def by (auto; fastforce)

lemma grows_CLinkages: "grows p (p\<lparr>CLinkages := c\<rparr>)"
  by (simp add: grows_def pkgInv_def)

lemma grows_DependencyPaths:
  "grows p (p\<lparr>PkgHeap := (PkgHeap p)(r := (PkgHeap p r)\<lparr>DependencyPaths := d\<rparr>)\<rparr>)"
  by (simp add: grows_def pkgInv_def)

lemma ParseDep_grows:
  assumes "\<And>d q q'. rec d q = Inr q' \<Longrightarrow> grows q q'"
    and "ParseDep rec w base path p = Inr p'"
  shows "grows p p'"
  using assms by (auto simp: ParseDep_def Let_def grows_refl split: if_splits)

lemma ParseText_paths_grows:
  assumes "\<And>d q q'. rec d q = Inr q' \<Longrightarrow> grows q q'"
  shows "ParseText_paths rec w base newPkg cl paths p = Inr p' \<Longrightarrow> grows p p'"
proof (induction paths arbitrary: p)
  case Nil
  then show ?case by (simp add: grows_refl)
next
  case (Cons depPath paths)
  show ?case
  proof (cases cl)
    case True
    with Cons.prems have "ParseText_paths rec w base newPkg cl paths
        (p\<lparr>CLinkages := CLinkages p @ [ResolveDepPath w base depPath]\<rparr>) = Inr p'"
      by simp
    from Cons.IH [OF this] show ?thesis
      using grows_trans [OF grows_CLinkages] by blast
  next
    case False
    let ?p1 = "p\<lparr>PkgHeap := (PkgHeap p)(newPkg := (PkgHeap p newPkg)\<lparr>DependencyPaths :=
        DependencyPaths (PkgHeap p newPkg) @ [ReduceToDir w (ResolveDepPath w base depPath)]\<rparr>)\<rparr>"
    from Cons.prems False obtain p2 where p2: "ParseDep rec w base depPath ?p1 = Inr p2"
      and rest: "ParseText_paths rec w base newPkg cl paths p2 = Inr p'"
      by (auto simp: Let_def split: sum.splits)
    have "grows p ?p1" by (rule grows_DependencyPaths)
    moreover have "grows ?p1 p2" using ParseDep_grows [OF assms p2] .
    moreover have "grows p2 p'" using Cons.IH [OF rest] .
    ultimately show ?thesis by (blast intro: grows_trans)
  qed
qed

lemma ParseText_deps_grows:
  "(\<And>d q q'. rec d q = Inr q' \<Longrightarrow> grows q q') \<Longrightarrow>
   ParseText_deps rec w base newPkg nodes p = Inr p' \<Longrightarrow> grows p p'"
proof (induction rec w base newPkg nodes p rule: ParseText_deps.induct)
  case (1 rec w base newPkg p)
  then show ?case by (simp add: grows_refl)
next
  case (2 rec w base newPkg paths clinkage nodes p)
  from "2.prems"(2) obtain p1 where p1: "ParseText_paths rec w base newPkg clinkage paths p = Inr p1"
    and rest: "ParseText_deps rec w base newPkg nodes p1 = Inr p'"
    by (auto split: sum.splits)
  have "grows p p1" using ParseText_paths_grows [OF "2.prems"(1) p1] by simp
  moreover have "grows p1 p'" using "2.IH" [OF p1 "2.prems"(1) rest] by simp
  ultimately show ?case by (rule grows_trans)
qed (simp_all)

lemma ParseText_grows:
  assumes rec: "\<And>d q q'. rec d q = Inr q' \<Longrightarrow> grows q q'"
    and run: "ParseText rec w code path p = Inr p'"
    and alloc: "NewPackage w = allocPackage"
  shows "grows p p'
    \<and> (Packages p path = None \<longrightarrow>
         Packages p' path = Some (NextPkg p)
         \<and> NamespaceFromNodes (Parse_Lex w path code) = Some (Package_Name (PkgHeap p' (NextPkg p)))
         \<and> Nodes (PkgHeap p' (NextPkg p)) = Parse_Lex w path code
         \<and> Files (PkgHeap p' (NextPkg p)) = [path \<mapsto> (path, code)])"
proof -
  let ?nodes = "Parse_Lex w path code"
  from run obtain name where name: "NamespaceFromNodes ?nodes = Some name"
    by (auto simp: ParseText_def Let_def split: if_splits option.splits)
  let ?r = "NextPkg p"
  let ?pkg = "\<lparr>Package_Name = name, Files = [path \<mapsto> (path, code)], Nodes = ?nodes,
      DependencyPaths = []\<rparr>"
  let ?p3 = "p\<lparr>ParsedFiles := ParsedFiles p @ [path], NextPkg := Suc ?r,
               PkgHeap := (PkgHeap p)(?r := ?pkg)\<rparr>"
  let ?p4 = "if Packages p path = None then ?p3\<lparr>Packages := (Packages p)(path \<mapsto> ?r)\<rparr> else ?p3"
  from run name alloc have deps: "ParseText_deps rec w (Dir path) ?r ?nodes ?p4 = Inr p'"
    by (auto simp: ParseText_def Let_def allocPackage_def split: if_splits)
  have g4: "grows p ?p4"
    unfolding grows_def pkgInv_def by (auto simp: less_Suc_eq; fastforce)
  have gd: "grows ?p4 p'"
    using ParseText_deps_grows [OF rec deps] .
  have g: "grows p p'"
    using g4 gd by (rule grows_trans)
  have new: "Packages p path = None \<longrightarrow>
         Packages p' path = Some ?r
         \<and> NamespaceFromNodes ?nodes = Some (Package_Name (PkgHeap p' ?r))
         \<and> Nodes (PkgHeap p' ?r) = ?nodes
         \<and> Files (PkgHeap p' ?r) = [path \<mapsto> (path, code)]"
  proof
    assume none: "Packages p path = None"
    then have "Packages ?p4 path = Some ?r" by simp
    with gd have 1: "Packages p' path = Some ?r" by (simp add: grows_def)
    have "?r < NextPkg ?p4" by simp
    with gd have "Package_Name (PkgHeap p' ?r) = Package_Name (PkgHeap ?p4 ?r)
        \<and> Files (PkgHeap p' ?r) = Files (PkgHeap ?p4 ?r)
        \<and> Nodes (PkgHeap p' ?r) = Nodes (PkgHeap ?p4 ?r)"
      unfolding grows_def by blast
    with 1 name show "Packages p' path = Some ?r
         \<and> NamespaceFromNodes ?nodes = Some (Package_Name (PkgHeap p' ?r))
         \<and> Nodes (PkgHeap p' ?r) = ?nodes
         \<and> Files (PkgHeap p' ?r) = [path \<mapsto> (path, code)]"
      by simp
  qed
  from g new show ?thesis by blast
qed

lemma ParsePath_files_grows:
  assumes rec: "\<And>d q q'. rec d q = Inr q' \<Longrightarrow> grows q q'"
    and alloc: "NewPackage w = allocPackage"
  shows "ParsePath_files rec w files p = Inr p' \<Longrightarrow> grows p p'"
proof (induction files arbitrary: p)
  case Nil
  then show ?case by (simp add: grows_refl)
next
  case (Cons f files)
  from Cons.prems obtain bytes p1 where first: "ParseText rec w bytes f p = Inr p1"
    and rest: "ParsePath_files rec w files p1 = Inr p'"
    by (auto simp: ParseFile_def split: sum.splits option.splits)
  have "grows p p1"
    using ParseText_grows [of rec w bytes f p p1] rec first alloc by blast
  moreover have "grows p1 p'" using Cons.IH [OF rest] .
  ultimately show ?case by (rule grows_trans)
qed

lemma ParsePath_grows:
  assumes alloc: "NewPackage w = allocPackage"
  shows "ParsePath fuel w dir p = Inr p' \<Longrightarrow> grows p p'"
proof (induction fuel arbitrary: dir p p')
  case 0
  then show ?case by simp
next
  case (Suc fuel)
  from Suc.prems obtain files where "ParsePath_files (ParsePath fuel w) w files p = Inr p'"
    by (auto simp: Let_def split: option.splits)
  then show ?case
    using ParsePath_files_grows [of "ParsePath fuel w" w] Suc.IH alloc by blast
qed

lemma keeps_refl: "keeps p p"
  by (simp add: keeps_def)

lemma keeps_trans: "keeps p q \<Longrightarrow> keeps q r \<Longrightarrow> keeps p r"
  unfolding keeps_def by blast

lemma keeps_CLinkages: "keeps p (p\<lparr>CLinkages := c\<rparr>)"
  by (simp add: keeps_def pathKeyed_def)

lemma keeps_PkgHeap: "keeps p (p\<lparr>PkgHeap := h\<rparr>)"
  by (simp add: keeps_def pathKeyed_def)

lemma ParseDep_keeps:
  assumes "\<And>d q q'. rec d q = Inr q' \<Longrightarrow> keeps q q'"
    and "ParseDep rec w base path p = Inr p'"
  shows "keeps p p'"
  using assms by (auto simp: ParseDep_def Let_def keeps_refl split: if_splits)

lemma ParseText_paths_keeps:
  assumes "\<And>d q q'. rec d q = Inr q' \<Longrightarrow> keeps q q'"
  shows "ParseText_paths rec w base newPkg cl paths p = Inr p' \<Longrightarrow> keeps p p'"
proof (induction paths arbitrary: p)
  case Nil
  then show ?case by (simp add: keeps_refl)
next
  case (Cons depPath paths)
  show ?case
  proof (cases cl)
    case True
    with Cons.prems have "ParseText_paths rec w base newPkg cl paths
        (p\<lparr>CLinkages := CLinkages p @ [ResolveDepPath w base depPath]\<rparr>) = Inr p'"
      by simp
    from Cons.IH [OF this] show ?thesis
      using keeps_trans [OF keeps_CLinkages] by blast
  next
    case False
    let ?p1 = "p\<lparr>PkgHeap := (PkgHeap p)(newPkg := (PkgHeap p newPkg)\<lparr>DependencyPaths :=
        DependencyPaths (PkgHeap p newPkg) @ [ReduceToDir w (ResolveDepPath w base depPath)]\<rparr>)\<rparr>"
    from Cons.prems False obtain p2 where p2: "ParseDep rec w base depPath ?p1 = Inr p2"
      and rest: "ParseText_paths rec w base newPkg cl paths p2 = Inr p'"
      by (auto simp: Let_def split: sum.splits)
    have "keeps p ?p1" by (rule keeps_PkgHeap)
    moreover have "keeps ?p1 p2" using ParseDep_keeps [OF assms p2] .
    moreover have "keeps p2 p'" using Cons.IH [OF rest] .
    ultimately show ?thesis by (blast intro: keeps_trans)
  qed
qed

lemma ParseText_deps_keeps:
  "(\<And>d q q'. rec d q = Inr q' \<Longrightarrow> keeps q q') \<Longrightarrow>
   ParseText_deps rec w base newPkg nodes p = Inr p' \<Longrightarrow> keeps p p'"
proof (induction rec w base newPkg nodes p rule: ParseText_deps.induct)
  case (1 rec w base newPkg p)
  then show ?case by (simp add: keeps_refl)
next
  case (2 rec w base newPkg paths clinkage nodes p)
  from "2.prems"(2) obtain p1 where p1: "ParseText_paths rec w base newPkg clinkage paths p = Inr p1"
    and rest: "ParseText_deps rec w base newPkg nodes p1 = Inr p'"
    by (auto split: sum.splits)
  have "keeps p p1" using ParseText_paths_keeps [OF "2.prems"(1) p1] by simp
  moreover have "keeps p1 p'" using "2.IH" [OF p1 "2.prems"(1) rest] by simp
  ultimately show ?case by (rule keeps_trans)
qed (simp_all)

lemma ParseText_keeps:
  assumes rec: "\<And>d q q'. rec d q = Inr q' \<Longrightarrow> keeps q q'"
    and run: "ParseText rec w code path p = Inr p'"
    and km: "keepsMap w"
  shows "keeps p p' \<and> path \<in> dom (Packages p') \<and> path \<in> set (ParsedFiles p')"
proof -
  let ?nodes = "Parse_Lex w path code"
  let ?p1 = "p\<lparr>ParsedFiles := ParsedFiles p @ [path]\<rparr>"
  from run obtain name where name: "NamespaceFromNodes ?nodes = Some name"
    by (auto simp: ParseText_def Let_def split: if_splits option.splits)
  obtain newPkg p2 where np: "NewPackage w name ?p1 = (newPkg, p2)"
    by (cases "NewPackage w name ?p1")
  from km have "Packages (snd (NewPackage w name ?p1)) = Packages ?p1"
    and "ParsedFiles (snd (NewPackage w name ?p1)) = ParsedFiles ?p1"
    unfolding keepsMap_def by blast+
  with np have same: "Packages p2 = Packages p" "ParsedFiles p2 = ParsedFiles p @ [path]"
    by simp_all
  let ?p3 = "p2\<lparr>PkgHeap := (PkgHeap p2)(newPkg :=
      (PkgHeap p2 newPkg)\<lparr>Files := (Files (PkgHeap p2 newPkg))(path \<mapsto> (path, code)),
         Nodes := ?nodes\<rparr>)\<rparr>"
  let ?p4 = "if Packages ?p3 path = None then ?p3\<lparr>Packages := (Packages ?p3)(path \<mapsto> newPkg)\<rparr>
      else ?p3"
  from run name np have deps: "ParseText_deps rec w (Dir path) newPkg ?nodes ?p4 = Inr p'"
    by (auto simp: ParseText_def Let_def split: if_splits)
  have k4: "keeps p ?p4"
    using same by (auto simp: keeps_def pathKeyed_def)
  have in4: "path \<in> dom (Packages ?p4)" "path \<in> set (ParsedFiles ?p4)"
    using same by auto
  have kd: "keeps ?p4 p'"
    using ParseText_deps_keeps [OF rec deps] .
  from k4 kd have "keeps p p'" by (rule keeps_trans)
  moreover from kd in4 have "path \<in> dom (Packages p')" "path \<in> set (ParsedFiles p')"
    unfolding keeps_def by blast+
  ultimately show ?thesis by simp
qed

lemma ParsePath_files_keeps:
  assumes rec: "\<And>d q q'. rec d q = Inr q' \<Longrightarrow> keeps q q'"
    and km: "keepsMap w"
  shows "ParsePath_files rec w files p = Inr p' \<Longrightarrow> keeps p p'"
proof (induction files arbitrary: p)
  case Nil
  then show ?case by (simp add: keeps_refl)
next
  case (Cons f files)
  from Cons.prems obtain bytes p1 where first: "ParseText rec w bytes f p = Inr p1"
    and rest: "ParsePath_files rec w files p1 = Inr p'"
    by (auto simp: ParseFile_def split: sum.splits option.splits)
  have "keeps p p1"
    using ParseText_keeps [of rec w bytes f p p1] rec first km by blast
  moreover have "keeps p1 p'" using Cons.IH [OF rest] .
  ultimately show ?case by (rule keeps_trans)
qed

lemma ParsePath_keeps:
  assumes km: "keepsMap w"
  shows "ParsePath fuel w dir p = Inr p' \<Longrightarrow> keeps p p'"
proof (induction fuel arbitrary: dir p p')
  case 0
  then show ?case by simp
next
  case (Suc fuel)
  from Suc.prems obtain files where "ParsePath_files (ParsePath fuel w) w files p = Inr p'"
    by (auto simp: Let_def split: option.splits)
  then show ?case
    using ParsePath_files_keeps [of "ParsePath fuel w" w] Suc.IH km by blast
qed

lemma keepsMap_allocPackage: "NewPackage w = allocPackage \<Longrightarrow> keepsMap w"
  by (simp add: keepsMap_def allocPackage_def)

lemma pkgInv_NewProgram: "pkgInv (NewProgram primitives)"
  by (simp add: pkgInv_def NewProgram_def)

lemma twoFilesLoaded_eval:
  "\<exists>p'. twoFilesLoaded = Inr p'
    \<and> Packages p' ''/proj/a.g'' = Some 0 \<and> Packages p' ''/proj/b.g'' = Some 1
    \<and> Packages p' ''m'' = None
    \<and> Package_Name (PkgHeap p' 0) = ''m'' \<and> Package_Name (PkgHeap p' 1) = ''m''
    \<and> Nodes (PkgHeap p' 0) = [NamespaceNode ''m'', OtherNode 0]
    \<and> Nodes (PkgHeap p' 1) = [NamespaceNode ''m'', OtherNode 1]"
  by (simp add: twoFilesLoaded_def twoFiles_def NewProgram_def ParseDir_def ParseFile_def
      ParseText_def PathIsDir_def ReduceToDir_def Abs_def HasPrefix_def HasSuffix_def Clean_def
      Join_def Dir_def CanParse_def MatchString_def lowerOrUnderscore_def allocPackage_def Let_def)

lemma fooLoaded_eval:
  "\<exists>p'. fooLoaded = Inr p' \<and> Packages p' ''/proj/c.g'' = Some 0
    \<and> Package_Name (PkgHeap p' 0) = ''Foo'' \<and> NextPkg p' = 1"
  by (simp add: fooLoaded_def twoFiles_def NewProgram_def ParseText_def
       MatchString_def lowerOrUnderscore_def allocPackage_def Let_def)

text \<open>
  C4, as the code has it. A call of \<open>ParseText\<close> that returns has put the file's path
  on the parsed-file list and left the Package map with an entry under that path; entries
  present before are kept, and if every key was the path of a parsed file before, so it
  is after: the map is keyed by file path, not by namespace name. This holds whatever
  \<open>NewPackage\<close> does, as long as it leaves the map and the parsed-file list alone.
  Where \<open>NewPackage\<close> is the constructor \<open>allocPackage\<close>, moreover: the entry made
  for a path without entry refers to a new Package object, named by the file's namespace
  declaration and holding that file's nodes and that file only, and no two keys of the
  map share a Package object, whatever namespaces the files declare.
\<close>

theorem ParseText_registers_by_path:
  assumes "ParseText (ParsePath fuel w) w code path p = Inr p'" and "keepsMap w"
  shows "(\<forall>k r. Packages p k = Some r \<longrightarrow> Packages p' k = Some r)
     \<and> path \<in> dom (Packages p')
     \<and> path \<in> set (ParsedFiles p')
     \<and> (pathKeyed p \<longrightarrow> pathKeyed p')
     \<and> (NewPackage w = allocPackage \<and> pkgInv p \<longrightarrow>
          pkgInv p'
          \<and> (Packages p path = None \<longrightarrow>
               Packages p' path = Some (NextPkg p)
               \<and> NamespaceFromNodes (Parse_Lex w path code)
                   = Some (Package_Name (PkgHeap p' (NextPkg p)))
               \<and> Nodes (PkgHeap p' (NextPkg p)) = Parse_Lex w path code
               \<and> Files (PkgHeap p' (NextPkg p)) = [path \<mapsto> (path, code)])
          \<and> (\<forall>a b r. Packages p' a = Some r \<and> Packages p' b = Some r \<longrightarrow> a = b))"
proof -
  have krec: "\<And>d q q'. ParsePath fuel w d q = Inr q' \<Longrightarrow> keeps q q'"
    using ParsePath_keeps [OF assms(2)] .
  have k: "keeps p p' \<and> path \<in> dom (Packages p') \<and> path \<in> set (ParsedFiles p')"
    using ParseText_keeps [of "ParsePath fuel w" w code path p p'] krec assms by blast
  have part2: "NewPackage w = allocPackage \<and> pkgInv p \<longrightarrow>
          pkgInv p'
          \<and> (Packages p path = None \<longrightarrow>
               Packages p' path = Some (NextPkg p)
               \<and> NamespaceFromNodes (Parse_Lex w path code)
                   = Some (Package_Name (PkgHeap p' (NextPkg p)))
               \<and> Nodes (PkgHeap p' (NextPkg p)) = Parse_Lex w path code
               \<and> Files (PkgHeap p' (NextPkg p)) = [path \<mapsto> (path, code)])
          \<and> (\<forall>a b r. Packages p' a = Some r \<and> Packages p' b = Some r \<longrightarrow> a = b)"
  proof
    assume a: "NewPackage w = allocPackage \<and> pkgInv p"
    then have alloc: "NewPackage w = allocPackage" and invp: "pkgInv p"
      by simp_all
    have rec: "\<And>d q q'. ParsePath fuel w d q = Inr q' \<Longrightarrow> grows q q'"
      using ParsePath_grows [OF alloc] .
    have main: "grows p p'
      \<and> (Packages p path = None \<longrightarrow>
           Packages p' path = Some (NextPkg p)
           \<and> NamespaceFromNodes (Parse_Lex w path code)
               = Some (Package_Name (PkgHeap p' (NextPkg p)))
           \<and> Nodes (PkgHeap p' (NextPkg p)) = Parse_Lex w path code
           \<and> Files (PkgHeap p' (NextPkg p)) = [path \<mapsto> (path, code)])"
      using ParseText_grows [of "ParsePath fuel w" w code path p p'] rec assms(1) alloc by blast
    then have inv: "pkgInv p'"
      using invp by (simp add: grows_def)
    have "\<forall>a b r. Packages p' a = Some r \<and> Packages p' b = Some r \<longrightarrow> a = b"
    proof (intro allI impI)
      fix a b r
      assume "Packages p' a = Some r \<and> Packages p' b = Some r"
      with inv have "dom (Files (PkgHeap p' r)) = {a}" and "dom (Files (PkgHeap p' r)) = {b}"
        by (simp_all add: pkgInv_def)
      then show "a = b" by simp
    qed
    with main inv show "pkgInv p'
          \<and> (Packages p path = None \<longrightarrow>
               Packages p' path = Some (NextPkg p)
               \<and> NamespaceFromNodes (Parse_Lex w path code)
                   = Some (Package_Name (PkgHeap p' (NextPkg p)))
               \<and> Nodes (PkgHeap p' (NextPkg p)) = Parse_Lex w path code
               \<and> Files (PkgHeap p' (NextPkg p)) = [path \<mapsto> (path, code)])
          \<and> (\<forall>a b r. Packages p' a = Some r \<and> Packages p' b = Some r \<longrightarrow> a = b)"
      by blast
  qed
  from k have "(\<forall>k r. Packages p k = Some r \<longrightarrow> Packages p' k = Some r)"
    and "pathKeyed p \<longrightarrow> pathKeyed p'"
    by (simp_all add: keeps_def)
  with k part2 show ?thesis by blast
qed

lemma keepsMap_twoFiles: "keepsMap twoFiles"
  by (rule keepsMap_allocPackage) (simp add: twoFiles_def)

theorem ParseText_registers_by_path_witness:
  "keepsMap twoFiles
   \<and> NewPackage twoFiles = allocPackage
   \<and> pkgInv (NewProgram Map.empty)
   \<and> pathKeyed (NewProgram Map.empty)
   \<and> \<not> isl fooLoaded
   \<and> Packages (NewProgram Map.empty) ''/proj/c.g'' = None
   \<and> pkgInv (projr fooLoaded)
   \<and> pathKeyed (projr fooLoaded)
   \<and> Packages (projr fooLoaded) ''/proj/c.g'' = Some 0
   \<and> Package_Name (PkgHeap (projr fooLoaded) 0) = ''Foo''
   \<and> Nodes (PkgHeap (projr fooLoaded) 0) = [NamespaceNode ''Foo'']"
proof -
  obtain p' where p': "fooLoaded = Inr p'"
    using fooLoaded_eval by blast
  then have run: "ParseText (ParsePath 0 twoFiles) twoFiles ''is Foo'' ''/proj/c.g''
      (NewProgram Map.empty) = Inr p'"
    by (simp add: fooLoaded_def)
  have none: "Packages (NewProgram Map.empty) ''/proj/c.g'' = None"
    by (simp add: NewProgram_def)
  have zero: "NextPkg (NewProgram Map.empty) = 0"
    by (simp add: NewProgram_def)
  have nodes: "Parse_Lex twoFiles ''/proj/c.g'' ''is Foo'' = [NamespaceNode ''Foo'']"
    by (simp add: twoFiles_def)
  have alloc: "NewPackage twoFiles = allocPackage"
    by (simp add: twoFiles_def)
  have keyed0: "pathKeyed (NewProgram Map.empty)"
    by (simp add: pathKeyed_def NewProgram_def)
  have sel: "projr fooLoaded = p'" "\<not> isl fooLoaded"
    by (simp_all add: p')
  show ?thesis
    using ParseText_registers_by_path [OF run keepsMap_twoFiles] none
    by (simp add: sel zero nodes alloc keyed0 pkgInv_NewProgram keepsMap_twoFiles)
qed

text \<open>
  C4, as the claim words it, fails. Loading \<open>/proj\<close>, whose files \<open>a.g\<close> and \<open>b.g\<close>
  both declare the namespace \<open>m\<close>, ends with two Package objects, both named \<open>m\<close>,
  registered under the two file paths; the map has no entry under \<open>m\<close>.
\<close>

theorem shared_package_counterexample:
  "\<not> isl twoFilesLoaded
   \<and> Packages (projr twoFilesLoaded) ''/proj/a.g'' = Some 0
   \<and> Packages (projr twoFilesLoaded) ''/proj/b.g'' = Some 1
   \<and> Package_Name (PkgHeap (projr twoFilesLoaded) 0) = ''m''
   \<and> Package_Name (PkgHeap (projr twoFilesLoaded) 1) = ''m''
   \<and> Nodes (PkgHeap (projr twoFilesLoaded) 0) \<noteq> Nodes (PkgHeap (projr twoFilesLoaded) 1)
   \<and> Packages (projr twoFilesLoaded) ''m'' = None"
proof -
  obtain p' where p': "twoFilesLoaded = Inr p'"
    and facts: "Packages p' ''/proj/a.g'' = Some 0" "Packages p' ''/proj/b.g'' = Some 1"
      "Packages p' ''m'' = None"
      "Package_Name (PkgHeap p' 0) = ''m''" "Package_Name (PkgHeap p' 1) = ''m''"
      "Nodes (PkgHeap p' 0) = [NamespaceNode ''m'', OtherNode 0]"
      "Nodes (PkgHeap p' 1) = [NamespaceNode ''m'', OtherNode 1]"
    using twoFilesLoaded_eval by blast
  have sel: "projr twoFilesLoaded = p'" "\<not> isl twoFilesLoaded"
    by (simp_all add: p')
  show ?thesis
    using facts by (simp add: sel)
qed

text \<open>
  C8. A file whose namespace is declared as \<open>Foo\<close>: the name is not made of lower-case
  letters and underscores, yet the unanchored pattern of line 185 matches it (on
  \<open>oo\<close>), so \<open>ParseText\<close> reports nothing and registers a Package named \<open>Foo\<close>,
  even where \<open>log.Error\<close> would end the process.
\<close>

theorem ParseText_accepts_Foo:
  "\<not> wellFormedNamespace ''Foo''
   \<and> MatchString ''Foo''
   \<and> log_Error_exits twoFiles
   \<and> \<not> isl fooLoaded
   \<and> Packages (projr fooLoaded) ''/proj/c.g'' = Some 0
   \<and> Package_Name (PkgHeap (projr fooLoaded) 0) = ''Foo''"
proof -
  obtain p' where p': "fooLoaded = Inr p'"
    and facts: "Packages p' ''/proj/c.g'' = Some 0" "Package_Name (PkgHeap p' 0) = ''Foo''"
    using fooLoaded_eval by blast
  have sel: "projr fooLoaded = p'" "\<not> isl fooLoaded"
    by (simp_all add: p')
  show ?thesis
    using facts
    by (simp add: sel wellFormedNamespace_def MatchString_def lowerOrUnderscore_def twoFiles_def)
qed

text \<open>
  A name without any lower-case letter or underscore is the only kind the test of line
  187 catches, and what follows is \<open>log.Error\<close>, not the \<open>log.Fatal\<close> of the other
  failures: unless \<open>log.Error\<close> ends the process, the Package is created all the same.
\<close>

lemma ParseText_FOO_when_Error_returns:
  "\<exists>p'. ParseText rec (twoFiles\<lparr>log_Error_exits := False\<rparr>) ''is FOO'' ''/proj/c.g''
          (NewProgram Map.empty) = Inr p'
     \<and> \<not> MatchString ''FOO''
     \<and> Packages p' ''/proj/c.g'' = Some 0 \<and> Package_Name (PkgHeap p' 0) = ''FOO''"
  by (simp add: twoFiles_def NewProgram_def ParseText_def
       MatchString_def lowerOrUnderscore_def allocPackage_def Let_def)

lemma ParseText_FOO_when_Error_exits:
  "ParseText rec twoFiles ''is FOO'' ''/proj/c.g'' p = Inl (ErrorInvalidNamespace ''FOO'')"
  by (simp add: twoFiles_def ParseText_def MatchString_def lowerOrUnderscore_def Let_def)

section \<open>Properties of the Program Driver\<close>

lemma Congeal_nodes_function:
  "Congeal_nodes pkg (FunctionNodeOf fn # rest) nodes p =
     Congeal_nodes pkg rest (nodes @ [PackageNode (FunctionNodeOf fn) pkg])
       (RegisterFunction p (registryKey (Package_Name (PkgHeap p pkg)) (Name_String fn))
          (fn\<lparr>FunctionNode_Package := Some pkg\<rparr>))"
  by (simp add: Let_def registryKey_def)

lemma Congeal_nodes_class:
  "\<exists>c. Congeal_nodes pkg (ClassNodeOf cls # rest) nodes p =
     Congeal_nodes pkg rest (nodes @ [PackageNode (ClassNodeOf cls) pkg]) (p\<lparr>Classes := c\<rparr>)"
  by (simp add: Let_def split del: if_split) blast

lemma Congeal_nodes_other:
  "(\<forall>fn. n \<noteq> FunctionNodeOf fn) \<Longrightarrow> (\<forall>cls. n \<noteq> ClassNodeOf cls) \<Longrightarrow>
   Congeal_nodes pkg (n # rest) nodes p =
     Congeal_nodes pkg rest (nodes @ [PackageNode n pkg]) p"
  by (cases n) (simp_all add: Let_def)

lemma regStep_refl: "regStep p p"
  by (simp add: regStep_def)

lemma regStep_trans: "regStep p q \<Longrightarrow> regStep q r \<Longrightarrow> regStep p r"
  unfolding regStep_def by auto

lemma regStep_Classes: "regStep p (p\<lparr>Classes := c\<rparr>)"
  by (simp add: regStep_def keyed_def)

lemma keyed_RegisterFunction:
  assumes "keyed p"
  shows "keyed (RegisterFunction p (registryKey (Package_Name (PkgHeap p pkg)) (Name_String fn))
           (fn\<lparr>FunctionNode_Package := Some pkg\<rparr>))"
  unfolding keyed_def
proof (intro allI impI)
  fix key r
  let ?k = "registryKey (Package_Name (PkgHeap p pkg)) (Name_String fn)"
  let ?q = "RegisterFunction p ?k (fn\<lparr>FunctionNode_Package := Some pkg\<rparr>)"
  assume a: "Functions ?q key = Some r"
  show "r < NextNode ?q \<and> (\<exists>pkg. FunctionNode_Package (NodeHeap ?q r) = Some pkg \<and>
         key = registryKey (Package_Name (PkgHeap ?q pkg)) (Name_String (NodeHeap ?q r)))"
  proof (cases "key = ?k")
    case True
    with a have "r = NextNode p" by (simp add: RegisterFunction_def)
    with True show ?thesis by (simp add: RegisterFunction_def)
  next
    case False
    with a have old: "Functions p key = Some r" by (simp add: RegisterFunction_def)
    with assms have "r < NextNode p" and
      "\<exists>pkg. FunctionNode_Package (NodeHeap p r) = Some pkg \<and>
         key = registryKey (Package_Name (PkgHeap p pkg)) (Name_String (NodeHeap p r))"
      unfolding keyed_def by blast+
    then show ?thesis by (simp add: RegisterFunction_def)
  qed
qed

lemma regStep_RegisterFunction:
  "regStep p (RegisterFunction p (registryKey (Package_Name (PkgHeap p pkg)) (Name_String fn))
           (fn\<lparr>FunctionNode_Package := Some pkg\<rparr>))"
  unfolding regStep_def using keyed_RegisterFunction [of p pkg fn]
  by (auto simp: RegisterFunction_def)

lemma Congeal_nodes_regStep:
  "Congeal_nodes pkg ns nodes p = (nodes', p') \<Longrightarrow> regStep p p'"
proof (induction ns arbitrary: nodes p)
  case Nil
  then show ?case by (simp add: regStep_refl)
next
  case (Cons n ns)
  show ?case
  proof (cases n)
    case (FunctionNodeOf fn)
    with Cons.prems have "Congeal_nodes pkg ns (nodes @ [PackageNode (FunctionNodeOf fn) pkg])
       (RegisterFunction p (registryKey (Package_Name (PkgHeap p pkg)) (Name_String fn))
          (fn\<lparr>FunctionNode_Package := Some pkg\<rparr>)) = (nodes', p')"
      by (simp only: Congeal_nodes_function)
    from Cons.IH [OF this] regStep_RegisterFunction show ?thesis
      by (blast intro: regStep_trans)
  next
    case (ClassNodeOf cls)
    with Cons.prems Congeal_nodes_class [of pkg cls ns nodes p]
    obtain c where "Congeal_nodes pkg ns (nodes @ [PackageNode (ClassNodeOf cls) pkg])
        (p\<lparr>Classes := c\<rparr>) = (nodes', p')"
      by auto
    from Cons.IH [OF this] regStep_Classes show ?thesis
      by (blast intro: regStep_trans)
  next
    case (NamespaceNode x)
    with Cons.prems have "Congeal_nodes pkg ns (nodes @ [PackageNode n pkg]) p = (nodes', p')"
      by (simp add: Congeal_nodes_other del: Congeal_nodes.simps)
    from Cons.IH [OF this] show ?thesis .
  next
    case (DependencyNode x y)
    with Cons.prems have "Congeal_nodes pkg ns (nodes @ [PackageNode n pkg]) p = (nodes', p')"
      by (simp add: Congeal_nodes_other del: Congeal_nodes.simps)
    from Cons.IH [OF this] show ?thesis .
  next
    case (GlobalVariableDeclNode x)
    with Cons.prems have "Congeal_nodes pkg ns (nodes @ [PackageNode n pkg]) p = (nodes', p')"
      by (simp add: Congeal_nodes_other del: Congeal_nodes.simps)
    from Cons.IH [OF this] show ?thesis .
  next
    case (OtherNode x)
    with Cons.prems have "Congeal_nodes pkg ns (nodes @ [PackageNode n pkg]) p = (nodes', p')"
      by (simp add: Congeal_nodes_other del: Congeal_nodes.simps)
    from Cons.IH [OF this] show ?thesis .
  qed
qed

lemma Congeal_nodes_registered:
  "Congeal_nodes pkg ns nodes p = (nodes', p') \<Longrightarrow> FunctionNodeOf fn \<in> set ns \<Longrightarrow>
     registryKey (Package_Name (PkgHeap p pkg)) (Name_String fn) \<in> dom (Functions p')"
proof (induction ns arbitrary: nodes p)
  case Nil
  then show ?case by simp
next
  case (Cons n ns)
  obtain nodes2 p2 where step: "Congeal_nodes pkg [n] nodes p = (nodes2, p2)"
    by (cases "Congeal_nodes pkg [n] nodes p")
  have split: "Congeal_nodes pkg (n # ns) nodes p = Congeal_nodes pkg ns nodes2 p2"
    using step by (simp add: Let_def)
  with Cons.prems(1) have rest: "Congeal_nodes pkg ns nodes2 p2 = (nodes', p')"
    by simp
  have f1: "PkgHeap p2 = PkgHeap p"
    using Congeal_nodes_regStep [OF step] by (simp add: regStep_def)
  have f2: "dom (Functions p2) \<subseteq> dom (Functions p')"
    using Congeal_nodes_regStep [OF rest] by (simp add: regStep_def)
  show ?case
  proof (cases "FunctionNodeOf fn \<in> set ns")
    case True
    from Cons.IH [OF rest True] f1 show ?thesis by simp
  next
    case False
    with Cons.prems(2) have n: "n = FunctionNodeOf fn" by simp
    have "registryKey (Package_Name (PkgHeap p pkg)) (Name_String fn) \<in> dom (Functions p2)"
      using step unfolding n Congeal_nodes_function
      by (auto simp: RegisterFunction_def)
    with f2 show ?thesis by blast
  qed
qed

lemma Congeal_packages_regStep:
  "Congeal_packages order nodes p = (nodes', p') \<Longrightarrow> regStep p p'"
proof (induction order arbitrary: nodes p)
  case Nil
  then show ?case by (simp add: regStep_refl)
next
  case (Cons k order)
  show ?case
  proof (cases "Packages p k")
    case None
    with Cons show ?thesis by simp
  next
    case (Some pkg)
    obtain nodes1 p1 where one: "Congeal_nodes pkg (Nodes (PkgHeap p pkg)) nodes p = (nodes1, p1)"
      by (cases "Congeal_nodes pkg (Nodes (PkgHeap p pkg)) nodes p")
    with Some Cons.prems have rest: "Congeal_packages order nodes1 p1 = (nodes', p')"
      by simp
    from Congeal_nodes_regStep [OF one] Cons.IH [OF rest] show ?thesis
      by (rule regStep_trans)
  qed
qed

lemma Congeal_packages_registered:
  "Congeal_packages order nodes p = (nodes', p') \<Longrightarrow> k \<in> set order \<Longrightarrow>
   Packages p k = Some pkg \<Longrightarrow> FunctionNodeOf fn \<in> set (Nodes (PkgHeap p pkg)) \<Longrightarrow>
     registryKey (Package_Name (PkgHeap p pkg)) (Name_String fn) \<in> dom (Functions p')"
proof (induction order arbitrary: nodes p)
  case Nil
  then show ?case by simp
next
  case (Cons j order)
  show ?case
  proof (cases "Packages p j")
    case None
    with Cons.prems have "k \<in> set order" and "Congeal_packages order nodes p = (nodes', p')"
      by auto
    from Cons.IH [OF this(2) this(1) Cons.prems(3,4)] show ?thesis .
  next
    case (Some pj)
    obtain nodes1 p1 where one: "Congeal_nodes pj (Nodes (PkgHeap p pj)) nodes p = (nodes1, p1)"
      by (cases "Congeal_nodes pj (Nodes (PkgHeap p pj)) nodes p")
    with Some Cons.prems have rest: "Congeal_packages order nodes1 p1 = (nodes', p')"
      by simp
    have f1: "PkgHeap p1 = PkgHeap p" "Packages p1 = Packages p"
      using Congeal_nodes_regStep [OF one] by (simp_all add: regStep_def)
    have f2: "dom (Functions p1) \<subseteq> dom (Functions p')"
      using Congeal_packages_regStep [OF rest] by (simp add: regStep_def)
    show ?thesis
    proof (cases "k = j")
      case True
      with Some Cons.prems(3) have "pj = pkg" by simp
      with Congeal_nodes_registered [OF one, of fn] Cons.prems(4) f2 show ?thesis
        by blast
    next
      case False
      with Cons.prems(2) have "k \<in> set order" by simp
      from Cons.IH [OF rest this] Cons.prems(3,4) f1 show ?thesis by simp
    qed
  qed
qed

text \<open>
  C7. After the registration loops of \<open>Congeal\<close> (lines 251-283), whatever the order in
  which the Packages are visited: every entry of the function registry holds a node that
  carries its Package, and its key is the unqualified name when the function is named
  \<open>main\<close> or its Package is named \<open>runtime\<close>, and \<open><pkg>:<name>\<close> otherwise; and
  every function node of every visited Package has an entry under the key so computed.
\<close>

theorem Congeal_registry_keys:
  assumes "Congeal_register x order p = (nodes, p')"
  shows "(\<forall>key r. Functions p' key = Some r \<longrightarrow>
           (\<exists>pkg. FunctionNode_Package (NodeHeap p' r) = Some pkg \<and>
              key = (if Name_String (NodeHeap p' r) = ''main''
                        \<or> Package_Name (PkgHeap p' pkg) = ''runtime''
                     then Name_String (NodeHeap p' r)
                     else Package_Name (PkgHeap p' pkg) @ '':'' @ Name_String (NodeHeap p' r))))
       \<and> (\<forall>k pkg fn. k \<in> set order \<and> Packages p k = Some pkg
              \<and> FunctionNodeOf fn \<in> set (Nodes (PkgHeap p pkg)) \<longrightarrow>
            (if Name_String fn = ''main'' \<or> Package_Name (PkgHeap p pkg) = ''runtime''
             then Name_String fn else Package_Name (PkgHeap p pkg) @ '':'' @ Name_String fn)
              \<in> dom (Functions p'))"
proof -
  let ?p1 = "p\<lparr>NamedMetadata := [], Functions := Map.empty, Classes := Map.empty\<rparr>"
  let ?p2 = "?p1\<lparr>Compiler := NewCompiler x ?p1\<rparr>"
  from assms have run: "Congeal_packages order [] ?p2 = (nodes, p')"
    by (simp add: Congeal_register_def Let_def)
  have "keyed ?p2" by (simp add: keyed_def)
  with Congeal_packages_regStep [OF run] have k: "keyed p'"
    by (simp add: regStep_def)
  have heap: "PkgHeap ?p2 = PkgHeap p" "Packages ?p2 = Packages p"
    by simp_all
  have reg: "\<forall>k pkg fn. k \<in> set order \<and> Packages p k = Some pkg
              \<and> FunctionNodeOf fn \<in> set (Nodes (PkgHeap p pkg)) \<longrightarrow>
      registryKey (Package_Name (PkgHeap p pkg)) (Name_String fn) \<in> dom (Functions p')"
    using Congeal_packages_registered [OF run] unfolding heap by blast
  from k have "\<forall>key r. Functions p' key = Some r \<longrightarrow>
           (\<exists>pkg. FunctionNode_Package (NodeHeap p' r) = Some pkg \<and>
              key = registryKey (Package_Name (PkgHeap p' pkg)) (Name_String (NodeHeap p' r)))"
    unfolding keyed_def by blast
  with reg show ?thesis
    unfolding registryKey_def by blast
qed


theorem Congeal_registry_keys_witness:
  "Congeal_register plainLowerer [''/rt/r.g'', ''/proj/a.g''] loadedProgram
     = (fst congealed, snd congealed)
   \<and> Functions (snd congealed) ''alloc'' = Some 0
   \<and> Functions (snd congealed) ''m:f'' = Some 1
   \<and> Functions (snd congealed) ''m:g'' = Some 2
   \<and> Functions (snd congealed) ''main'' = Some 3
   \<and> Functions (snd congealed) ''m:main'' = None
   \<and> Functions (snd congealed) ''runtime:alloc'' = None
   \<and> FunctionNode_Package (NodeHeap (snd congealed) 0) = Some 1
   \<and> FunctionNode_Package (NodeHeap (snd congealed) 3) = Some 0"
proof -
  have run: "Congeal_register plainLowerer [''/rt/r.g'', ''/proj/a.g''] loadedProgram
     = (fst congealed, snd congealed)"
    by (simp add: congealed_def)
  have vals: "Functions (snd congealed) ''alloc'' = Some 0
   \<and> Functions (snd congealed) ''m:f'' = Some 1
   \<and> Functions (snd congealed) ''m:g'' = Some 2
   \<and> Functions (snd congealed) ''main'' = Some 3
   \<and> Functions (snd congealed) ''m:main'' = None
   \<and> Functions (snd congealed) ''runtime:alloc'' = None
   \<and> FunctionNode_Package (NodeHeap (snd congealed) 0) = Some 1
   \<and> FunctionNode_Package (NodeHeap (snd congealed) 3) = Some 0"
    by (simp add: congealed_def Congeal_register_def loadedProgram_def NewProgram_def
        plainLowerer_def Let_def RegisterFunction_def PackageNode_def nodeF_def nodeG_def
        nodeMain_def nodeAlloc_def)
  show ?thesis
    using Congeal_registry_keys [OF run] vals run by simp
qed

section \<open>Properties of the Function Compiler\<close>

lemma GetFunction_variant_errors:
  "GetFunction_variant x node ct pp ps pc p = (Inl e, p') \<Longrightarrow>
     (\<exists>m. e = ErrDeclare m) \<or> (\<exists>m. e = ErrCodegen m)"
  by (auto simp: GetFunction_variant_def Let_def
      split: option.splits prod.splits sum.splits if_splits)

lemma GetFunction_variant_no_check_error:
  "fst (GetFunction_variant x node ct pp ps pc p) = Inl e \<Longrightarrow>
     \<not> isArityError e \<and> \<not> isTypeError e"
  using GetFunction_variant_errors [of x node ct pp ps pc p e
      "snd (GetFunction_variant x node ct pp ps pc p)"]
  by (cases "GetFunction_variant x node ct pp ps pc p") auto

lemma GetFunction_variant_restores:
  "GetFunction_variant x node ct pp ps pc p = (Inr f, p') \<Longrightarrow>
     Package p' = pp \<and> Scope p' = ps \<and> Compiler p' = pc"
  by (auto simp: GetFunction_variant_def GetFunction_restore_def Let_def
      split: option.splits prod.splits sum.splits if_splits)

text \<open>On every return without error the saved context is back in place.\<close>

lemma GetFunction_restores_on_success:
  assumes "GetFunction x name options p = (Inr f, p')"
  shows "Package p' = Package p \<and> Scope p' = Scope p \<and> Compiler p' = Compiler p"
proof (cases "Functions p name")
  case None
  with assms show ?thesis by (simp add: GetFunction_def)
next
  case (Some node)
  with assms obtain ct p6 where
    "GetFunction_variant x node ct (Package p) (Scope p) (Compiler p) p6 = (Inr f, p')"
    by (auto simp: GetFunction_def Let_def split: option.splits prod.splits sum.splits if_splits)
  then show ?thesis by (rule GetFunction_variant_restores)
qed

text \<open>
  C1. A call that returns an error: \<open>m:f\<close>, which declares one parameter, requested
  with an empty list of argument types while a function of Package 1 is being lowered
  in scope 1. The call returns the wrong-number-of-arguments error, and leaves the
  active scope at the child scope it pushed under the root (scope 2) and the active
  Package at the Package of \<open>f\<close> (Package 0), not at their values at entry.
\<close>

theorem GetFunction_error_return_not_restored:
  "fst (GetFunction plainLowerer ''m:f'' \<lparr>ArgTypes = Some []\<rparr> callerState)
      = Inl (ErrArgumentCount ''m:f'' 1 0)
   \<and> Functions callerState ''m:f'' = Some 0
   \<and> Scope callerState = 1
   \<and> Scope (snd (GetFunction plainLowerer ''m:f'' \<lparr>ArgTypes = Some []\<rparr> callerState)) = 2
   \<and> Package callerState = Some 1
   \<and> Package (snd (GetFunction plainLowerer ''m:f'' \<lparr>ArgTypes = Some []\<rparr> callerState)) = Some 0"
  by (simp add: GetFunction_def GetFunction_prime_def callerState_def loadedProgram_def
      NewProgram_def plainLowerer_def Let_def nodeF_def nodeG_def GetFunction_arity_def
      ScopeDown_def SpawnChild_def GetRoot_def)

text \<open>
  C6, as the code has it. For a registered function whose declared parameter types have
  been computed (\<open>d\<close> of them) and a list of \<open>n\<close> argument types that is not \<open>nil\<close>:
  a variadic function with \<open>n < d\<close> fails with the variadic-minimum error carrying the
  name, \<open>d\<close> and \<open>n\<close>; a variadic function with \<open>n \<ge> d\<close> is accepted, that is, the
  call goes on to the variant step without any parameter-type check and returns no arity
  or type-mismatch error; a function that is not variadic with \<open>n \<noteq> d\<close> fails with the
  wrong-number-of-arguments error.
\<close>

theorem GetFunction_arity_check:
  assumes "Functions p name = Some node"
    and "ArgTypes options = Some given"
    and "Arguments x node (GetFunction_prime x name options node p) = (Inr rawTypes, p5)"
  shows "(Variadic (NodeHeap p5 node) \<and> length given < length rawTypes \<longrightarrow>
            GetFunction x name options p
              = (Inl (ErrVariadicMinimum name (length rawTypes) (length given)), p5))
       \<and> (Variadic (NodeHeap p5 node) \<and> length rawTypes \<le> length given \<longrightarrow>
            GetFunction x name options p
              = GetFunction_variant x node [] (Package p) (Scope p) (Compiler p) p5
            \<and> (\<forall>e. fst (GetFunction x name options p) = Inl e \<longrightarrow>
                  \<not> isArityError e \<and> \<not> isTypeError e))
       \<and> (\<not> Variadic (NodeHeap p5 node) \<and> length given \<noteq> length rawTypes \<longrightarrow>
            GetFunction x name options p
              = (Inl (ErrArgumentCount name (length rawTypes) (length given)), p5))"
proof (intro conjI impI)
  assume "Variadic (NodeHeap p5 node) \<and> length given < length rawTypes"
  then show "GetFunction x name options p
      = (Inl (ErrVariadicMinimum name (length rawTypes) (length given)), p5)"
    using assms by (simp add: GetFunction_def Let_def GetFunction_arity_def)
next
  assume a: "Variadic (NodeHeap p5 node) \<and> length rawTypes \<le> length given"
  then show eq: "GetFunction x name options p
      = GetFunction_variant x node [] (Package p) (Scope p) (Compiler p) p5"
    using assms by (simp add: GetFunction_def Let_def GetFunction_arity_def)
  show "\<forall>e. fst (GetFunction x name options p) = Inl e \<longrightarrow>
      \<not> isArityError e \<and> \<not> isTypeError e"
    unfolding eq using GetFunction_variant_no_check_error by blast
next
  assume "\<not> Variadic (NodeHeap p5 node) \<and> length given \<noteq> length rawTypes"
  then show "GetFunction x name options p
      = (Inl (ErrArgumentCount name (length rawTypes) (length given)), p5)"
    using assms by (auto simp: GetFunction_def Let_def GetFunction_arity_def)
qed

lemma callerState_primed_g:
  "Arguments plainLowerer 1 (GetFunction_prime plainLowerer ''m:g'' opts 1 callerState)
     = (Inr [Some I32], GetFunction_prime plainLowerer ''m:g'' opts 1 callerState)
   \<and> Variadic (NodeHeap (GetFunction_prime plainLowerer ''m:g'' opts 1 callerState) 1)"
  by (simp add: GetFunction_prime_def callerState_def loadedProgram_def
      NewProgram_def plainLowerer_def Let_def nodeF_def nodeG_def
      ScopeDown_def SpawnChild_def GetRoot_def)

lemma callerState_primed_f:
  "Arguments plainLowerer 0 (GetFunction_prime plainLowerer ''m:f'' opts 0 callerState)
     = (Inr [Some I32], GetFunction_prime plainLowerer ''m:f'' opts 0 callerState)
   \<and> \<not> Variadic (NodeHeap (GetFunction_prime plainLowerer ''m:f'' opts 0 callerState) 0)"
  by (simp add: GetFunction_prime_def callerState_def loadedProgram_def
      NewProgram_def plainLowerer_def Let_def nodeF_def nodeG_def
      ScopeDown_def SpawnChild_def GetRoot_def)

lemma callerState_Functions:
  "Functions callerState ''m:f'' = Some 0 \<and> Functions callerState ''m:g'' = Some 1"
  by (simp add: callerState_def)

theorem GetFunction_arity_check_witness:
  "Functions callerState ''m:g'' = Some 1
   \<and> Functions callerState ''m:f'' = Some 0
   \<and> fst (GetFunction plainLowerer ''m:g'' \<lparr>ArgTypes = Some []\<rparr> callerState)
       = Inl (ErrVariadicMinimum ''m:g'' 1 0)
   \<and> fst (GetFunction plainLowerer ''m:g'' \<lparr>ArgTypes = Some [Some I32, Some I8]\<rparr> callerState)
       = Inr (Some ''g_v'')
   \<and> fst (GetFunction plainLowerer ''m:f'' \<lparr>ArgTypes = Some []\<rparr> callerState)
       = Inl (ErrArgumentCount ''m:f'' 1 0)"
proof -
  have fs: "Functions callerState ''m:f'' = Some 0" "Functions callerState ''m:g'' = Some 1"
    using callerState_Functions by simp_all
  have g0: "fst (GetFunction plainLowerer ''m:g'' \<lparr>ArgTypes = Some []\<rparr> callerState)
       = Inl (ErrVariadicMinimum ''m:g'' 1 0)"
    using GetFunction_arity_check [OF fs(2), of "\<lparr>ArgTypes = Some []\<rparr>" "[]" plainLowerer
        "[Some I32]" "GetFunction_prime plainLowerer ''m:g'' \<lparr>ArgTypes = Some []\<rparr> 1 callerState"]
      callerState_primed_g [of "\<lparr>ArgTypes = Some []\<rparr>"]
    by simp
  have f0: "fst (GetFunction plainLowerer ''m:f'' \<lparr>ArgTypes = Some []\<rparr> callerState)
       = Inl (ErrArgumentCount ''m:f'' 1 0)"
    using GetFunction_arity_check [OF fs(1), of "\<lparr>ArgTypes = Some []\<rparr>" "[]" plainLowerer
        "[Some I32]" "GetFunction_prime plainLowerer ''m:f'' \<lparr>ArgTypes = Some []\<rparr> 0 callerState"]
      callerState_primed_f [of "\<lparr>ArgTypes = Some []\<rparr>"]
    by simp
  have g2: "fst (GetFunction plainLowerer ''m:g'' \<lparr>ArgTypes = Some [Some I32, Some I8]\<rparr> callerState)
       = Inr (Some ''g_v'')"
    by (simp add: GetFunction_def GetFunction_prime_def callerState_def loadedProgram_def
      NewProgram_def plainLowerer_def Let_def nodeF_def nodeG_def GetFunction_arity_def
      ScopeDown_def SpawnChild_def GetRoot_def GetFunction_variant_def GetFunction_restore_def
      GetFunction_compiledVal_def)
  show ?thesis
    using fs g0 f0 g2 by simp
qed

text \<open>
  C6, as the claim words it, fails when the list of argument types is \<open>nil\<close>, as in
  the call of \<open>NewRuntimeFunctionCall\<close> (line 532): with no argument types, the variadic
  \<open>g\<close> and the non-variadic \<open>f\<close>, one declared parameter each, are both compiled and
  returned.
\<close>

theorem GetFunction_nil_arity_counterexample:
  "Variadic (NodeHeap callerState 1)
   \<and> length (Args (NodeHeap callerState 1)) = 1
   \<and> fst (GetFunction plainLowerer ''m:g'' \<lparr>ArgTypes = None\<rparr> callerState) = Inr (Some ''g_v'')
   \<and> \<not> Variadic (NodeHeap callerState 0)
   \<and> length (Args (NodeHeap callerState 0)) = 1
   \<and> fst (GetFunction plainLowerer ''m:f'' \<lparr>ArgTypes = None\<rparr> callerState) = Inr (Some ''f_v'')"
  by (simp add: GetFunction_def GetFunction_prime_def callerState_def loadedProgram_def
      NewProgram_def plainLowerer_def Let_def nodeF_def nodeG_def GetFunction_arity_def
      ScopeDown_def SpawnChild_def GetRoot_def GetFunction_variant_def GetFunction_restore_def
      GetFunction_compiledVal_def)

text \<open>
  C10. For a registered function and a \<open>nil\<close> list of argument types: when the declared
  parameter types cannot be computed, the error of \<open>Arguments\<close> is returned; otherwise
  the call is the variant step (lines 486-519) run on the Program exactly as
  \<open>Arguments\<close> left it, so without any type binding registered, with the empty list of
  effective parameter types, from which the variant key is mangled (a no-mangle function
  keeps its source name as key). In no case is the returned error an arity or a
  type-mismatch error.
\<close>

theorem GetFunction_nil_ArgTypes:
  assumes "Functions p name = Some node" and "ArgTypes options = None"
  shows "(case Arguments x node (GetFunction_prime x name options node p) of
            (Inl err, p5) \<Rightarrow> GetFunction x name options p = (Inl (ErrArguments err), p5)
          | (Inr rawTypes, p5) \<Rightarrow>
              GetFunction x name options p
                = GetFunction_variant x node [] (Package p) (Scope p) (Compiler p) p5)
       \<and> (\<forall>e. fst (GetFunction x name options p) = Inl e \<longrightarrow>
             \<not> isArityError e \<and> \<not> isTypeError e)"
proof -
  obtain r p5 where args: "Arguments x node (GetFunction_prime x name options node p) = (r, p5)"
    by (cases "Arguments x node (GetFunction_prime x name options node p)")
  show ?thesis
  proof (cases r)
    case (Inl err)
    with args assms have "GetFunction x name options p = (Inl (ErrArguments err), p5)"
      by (simp add: GetFunction_def Let_def)
    with args Inl show ?thesis by simp
  next
    case (Inr rawTypes)
    with args assms have eq: "GetFunction x name options p
        = GetFunction_variant x node [] (Package p) (Scope p) (Compiler p) p5"
      by (simp add: GetFunction_def Let_def GetFunction_arity_def)
    have "\<forall>e. fst (GetFunction x name options p) = Inl e \<longrightarrow>
        \<not> isArityError e \<and> \<not> isTypeError e"
      unfolding eq using GetFunction_variant_no_check_error by blast
    with args Inr eq show ?thesis by simp
  qed
qed

theorem GetFunction_nil_ArgTypes_witness:
  "Functions callerState ''m:g'' = Some 1
   \<and> ArgTypes \<lparr>ArgTypes = None\<rparr> = None
   \<and> GetFunction plainLowerer ''m:g'' \<lparr>ArgTypes = None\<rparr> callerState
       = GetFunction_variant plainLowerer 1 [] (Package callerState) (Scope callerState)
           (Compiler callerState)
           (GetFunction_prime plainLowerer ''m:g'' \<lparr>ArgTypes = None\<rparr> 1 callerState)
   \<and> fst (GetFunction plainLowerer ''m:g'' \<lparr>ArgTypes = None\<rparr> callerState) = Inr (Some ''g_v'')"
proof -
  have fs: "Functions callerState ''m:g'' = Some 1"
    using callerState_Functions by simp
  have nil: "ArgTypes \<lparr>ArgTypes = None\<rparr> = None"
    by simp
  have val: "fst (GetFunction plainLowerer ''m:g'' \<lparr>ArgTypes = None\<rparr> callerState)
      = Inr (Some ''g_v'')"
    by (simp add: GetFunction_def GetFunction_prime_def callerState_def loadedProgram_def
      NewProgram_def plainLowerer_def Let_def nodeF_def nodeG_def GetFunction_arity_def
      ScopeDown_def SpawnChild_def GetRoot_def GetFunction_variant_def GetFunction_restore_def
      GetFunction_compiledVal_def)
  show ?thesis
    using GetFunction_nil_ArgTypes [OF fs nil, of plainLowerer]
      callerState_primed_g [of "\<lparr>ArgTypes = None\<rparr>"] fs val
    by simp
qed

end
